theory Spec2Isabelle
  imports Complex_Main "HOL-Library.Word" "HOL-Library.Sublist" "HOL-Library.AList"
begin

section \<open>JavaScript values used by the dashboard script and the history updater\<close>

text \<open>
  A JavaScript string is a sequence of UTF-16 code units. String literals of the source are
  written \<open>str ''...''\<close>; the two non-ASCII code units the source names are
  \<open>0x03BC\<close> (Greek mu) and \<open>0x00B5\<close> (micro sign).
\<close>

type_synonym jschar = "16 word"
type_synonym jstring = "jschar list"

definition str :: "string \<Rightarrow> jstring" where
  "str s = map of_char s"

text \<open>
  Exceptions are values, named after the JavaScript error class. An \<open>Error\<close> carries the
  message the source gives it; the messages of \<open>TypeError\<close> and \<open>SyntaxError\<close> come from the
  engine and are not modelled.
\<close>

datatype error = Error jstring | TypeError | SyntaxError

text \<open>
  Numbers are modelled as real numbers: the rounding of IEEE doubles and \<open>NaN\<close> are not
  represented. \<open>Math.max\<close> of no arguments is \<open>-Infinity\<close>, which is kept as a value of
  its own.
\<close>

datatype number = NegInfinity | Finite real

fun num_max :: "number \<Rightarrow> number \<Rightarrow> number" where
  "num_max NegInfinity b = b"
| "num_max (Finite a) NegInfinity = Finite a"
| "num_max (Finite a) (Finite b) = Finite (max a b)"

fun Math_max :: "number list \<Rightarrow> number" where
  "Math_max [] = NegInfinity"
| "Math_max (v # vs) = num_max v (Math_max vs)"

fun greater :: "number \<Rightarrow> real \<Rightarrow> bool" where
  "greater NegInfinity r = False"
| "greater (Finite v) r = (r < v)"

text \<open>
  A value read from the JSON history; an object is the list of its own properties and has the
  prototype \<open>Object.prototype\<close>, an array has the prototype \<open>Array.prototype\<close>.
  \<open>Array.prototype.join\<close> separates the elements; \<open>show_json\<close> is the text \<open>toString\<close>
  gives (inside an array \<open>null\<close> prints as the empty string). The decimal text of a number
  is not computed here: every function that prints a number takes
  \<open>Number.prototype.toString\<close> as its first argument \<open>nts\<close>.
\<close>

datatype json = JNull | JBool bool | JNum real | JStr jstring
  | JArr "json list" | JObj "(jstring \<times> json) list"

fun join :: "jstring \<Rightarrow> jstring list \<Rightarrow> jstring" where
  "join sep [] = []"
| "join sep [s] = s"
| "join sep (s # t # ts) = s @ sep @ join sep (t # ts)"

fun show_json :: "(real \<Rightarrow> jstring) \<Rightarrow> json \<Rightarrow> jstring" where
  "show_json nts JNull = []"
| "show_json nts (JBool b) = (if b then str ''true'' else str ''false'')"
| "show_json nts (JNum r) = nts r"
| "show_json nts (JStr s) = s"
| "show_json nts (JArr vs) = join (str '','') (map (show_json nts) vs)"
| "show_json nts (JObj ms) = str ''[object Object]''"

text \<open>
  \<open>v.toString()\<close>. A method call on \<open>null\<close> throws. An object with an own property
  \<open>toString\<close> hides the method of \<open>Object.prototype\<close>; the property holds data, which cannot
  be called, so the call throws, and so does the conversion of such an object when it is an
  element of an array that is printed (the conversion then tries \<open>valueOf\<close>, which gives no
  primitive either). \<open>has_text\<close> says that a value contains no such object in a place that is
  printed.
\<close>

fun has_text :: "json \<Rightarrow> bool" where
  "has_text (JArr vs) = (\<forall>v \<in> set vs. has_text v)"
| "has_text (JObj ms) = (map_of ms (str ''toString'') = None)"
| "has_text _ = True"

definition toString :: "(real \<Rightarrow> jstring) \<Rightarrow> json \<Rightarrow> error + jstring" where
  "toString nts v =
     (if v = JNull \<or> \<not> has_text v then Inl TypeError
      else Inr (show_json nts v))"

section \<open>Ordinary objects\<close>

text \<open>
  An ordinary object is modelled by the list of its own properties, in the order in which they
  are enumerated: the names that are array indices first, in ascending numeric order, then the
  other names in the order of their creation. An array index is the decimal text, without a
  leading zero, of an integer below \<open>2^32 - 1\<close>. \<open>precedes k k'\<close> says that a new property \<open>k\<close>
  is enumerated before an existing property \<open>k'\<close>.
\<close>

fun digit_value :: "jschar \<Rightarrow> nat option" where
  "digit_value c = (if 0x30 \<le> c \<and> c \<le> 0x39 then Some (unat c - 48) else None)"

fun digits_value :: "nat \<Rightarrow> jstring \<Rightarrow> nat option" where
  "digits_value acc [] = Some acc"
| "digits_value acc (c # cs) =
     (case digit_value c of None \<Rightarrow> None | Some d \<Rightarrow> digits_value (acc * 10 + d) cs)"

definition array_index :: "jstring \<Rightarrow> nat option" where
  "array_index s =
     (case s of
        [] \<Rightarrow> None
      | c # cs \<Rightarrow>
          if c = 0x30 \<and> cs \<noteq> [] then None
          else (case digits_value 0 s of
                  None \<Rightarrow> None
                | Some n \<Rightarrow> if n < 4294967295 then Some n else None))"

definition precedes :: "jstring \<Rightarrow> jstring \<Rightarrow> bool" where
  "precedes k k' =
     (case array_index k of
        None \<Rightarrow> False
      | Some i \<Rightarrow> (case array_index k' of None \<Rightarrow> True | Some j \<Rightarrow> i < j))"

text \<open>
  \<open>insert_property\<close> creates a property that the object does not have. \<open>define_property\<close>
  gives an own property a value, creating it when needed: this is what \<open>JSON.parse\<close> does for
  a member, and what an assignment does to a property the object has.
\<close>

fun insert_property :: "jstring \<Rightarrow> 'a \<Rightarrow> (jstring \<times> 'a) list \<Rightarrow> (jstring \<times> 'a) list" where
  "insert_property k v [] = [(k, v)]"
| "insert_property k v (p # ps) =
     (if precedes k (fst p) then (k, v) # p # ps else p # insert_property k v ps)"

definition define_property :: "jstring \<Rightarrow> 'a \<Rightarrow> (jstring \<times> 'a) list \<Rightarrow> (jstring \<times> 'a) list" where
  "define_property k v obj =
     (if map_of obj k = None then insert_property k v obj else AList.update k v obj)"

text \<open>
  A list is \<open>enumerated\<close> when it is the property list of an object: no name occurs twice,
  and no property comes after one that it precedes.
\<close>

definition enumerated :: "(jstring \<times> 'a) list \<Rightarrow> bool" where
  "enumerated obj =
     (distinct (map fst obj) \<and> sorted_wrt (\<lambda>k k'. \<not> precedes k' k) (map fst obj))"

text \<open>
  The properties of \<open>Object.prototype\<close>, which every such object inherits: eleven functions
  and the accessor \<open>__proto__\<close>. (A runtime may be started without that accessor, and then
  treats the name \<open>__proto__\<close> as any other name; the properties stated below about the history
  update do not depend on it.)

  \<^item> \<open>set_property\<close> is the assignment \<open>obj[k] = v\<close>. For the name \<open>__proto__\<close> on an
    object without an own property of that name the assignment calls the inherited setter,
    which creates no property: it ignores a value that is not an object, and for an object it
    replaces the prototype.
  \<^item> \<open>hasOwnProperty\<close> is the call \<open>obj.hasOwnProperty(s)\<close>: an own property named
    \<open>hasOwnProperty\<close> hides the inherited method; it holds data, and calling it throws.
  \<^item> \<open>get_property\<close> is the read \<open>obj[k]\<close>: the value of an own property, else the value
    that \<open>Object.prototype\<close> has under that name, else \<open>undefined\<close>.
\<close>

definition Object_prototype :: "jstring list" where
  "Object_prototype =
     [str ''constructor'', str ''__defineGetter__'', str ''__defineSetter__'',
      str ''hasOwnProperty'', str ''__lookupGetter__'', str ''__lookupSetter__'',
      str ''isPrototypeOf'', str ''propertyIsEnumerable'', str ''toString'', str ''valueOf'',
      str ''__proto__'', str ''toLocaleString'']"

definition set_property :: "jstring \<Rightarrow> 'a \<Rightarrow> (jstring \<times> 'a) list \<Rightarrow> (jstring \<times> 'a) list" where
  "set_property k v obj =
     (if k = str ''__proto__'' \<and> map_of obj k = None then obj else define_property k v obj)"

definition hasOwnProperty :: "(jstring \<times> 'a) list \<Rightarrow> jstring \<Rightarrow> error + bool" where
  "hasOwnProperty obj s =
     (if map_of obj (str ''hasOwnProperty'') \<noteq> None then Inl TypeError
      else Inr (map_of obj s \<noteq> None))"

datatype 'a lookup = Undefined | Own 'a | Inherited jstring

definition get_property :: "(jstring \<times> 'a) list \<Rightarrow> jstring \<Rightarrow> 'a lookup" where
  "get_property obj k =
     (case map_of obj k of
        Some v \<Rightarrow> Own v
      | None \<Rightarrow> if k \<in> set Object_prototype then Inherited k else Undefined)"

section \<open>The data model\<close>

text \<open>
  The interfaces of \<open>updateBenchmarkData.ts\<close>. The fields \<open>author\<close> and \<open>committer\<close> of a
  commit are read by none of the functions below and are left to the record's extension.
  In a \<open>BenchmarkResult\<close>, \<open>props\<close> holds the own properties other than \<open>value\<close>,
  \<open>unit\<close> and \<open>range\<close> (the index signature \<open>[key: string]: any\<close>): the name, the
  operating system and the caller's classification fields. Its prototype is
  \<open>Object.prototype\<close>.
\<close>

record Commit =
  id' :: jstring
  message :: jstring
  timestamp :: jstring
  url :: jstring

record BenchmarkResult =
  value' :: real
  unit' :: jstring
  range' :: "jstring option"
  props :: "(jstring \<times> json) list"

record Benchmark =
  commit :: Commit
  date :: int
  bigger_is_better :: bool
  benches :: "BenchmarkResult list"

text \<open>The object \<open>{ commit, date, bench }\<close> that \<open>separateAllTraces\<close> builds per result.\<close>

record observation =
  obs_commit :: Commit
  obs_date :: int
  obs_bench :: BenchmarkResult

text \<open>
  An ordinary object all of whose own properties hold strings: a key, the metadata of a trace.
\<close>

type_synonym jsobject = "(jstring \<times> jstring) list"

text \<open>A trace as \<open>separateAllTraces\<close> creates it; \<open>y\<close>, \<open>name\<close> and \<open>text\<close> are
  assigned later and are \<open>None\<close> until then.\<close>

record Trace =
  metadata :: jsobject
  trace_x :: "int list"
  dataNs :: "real list"
  dataset :: "observation list"
  showlegend :: bool
  hoverinfo :: jstring
  trace_y :: "real list option"
  trace_name :: "jstring option"
  trace_text :: "jstring list option"

section \<open>Unit normalizer\<close>

text \<open>\<open>unit[0]\<close> is the first code unit, or \<open>undefined\<close> for the empty string.\<close>

definition getNanoseconds :: "real \<Rightarrow> jstring \<Rightarrow> error + real" where
  "getNanoseconds value unit =
     (let unitIdentifier = (case unit of [] \<Rightarrow> None | c # _ \<Rightarrow> Some c) in
      if unitIdentifier \<in> {Some 0x03BC, Some 0x00B5, Some (of_char CHR ''u'')}
        then Inr (value * 1000)
      else if unitIdentifier = Some (of_char CHR ''n'') then Inr value
      else if unitIdentifier = Some (of_char CHR ''m'') then Inr (value * 1000000)
      else if unitIdentifier = Some (of_char CHR ''s'') then Inr (value * 1000000000)
      else Inl (Error (str ''undefined unit: '' @
                 (case unitIdentifier of None \<Rightarrow> str ''undefined'' | Some c \<Rightarrow> [c]))))"

text \<open>The function returns the unit and updates the traces in place; the model returns
  both.\<close>

definition adjustDataAndUnit :: "Trace list \<Rightarrow> jstring \<times> Trace list" where
  "adjustDataAndUnit traces =
     (let maxes = map (\<lambda>trace. Math_max (map Finite (dataNs trace))) traces;
          maxValue = Math_max maxes;
          (scaleFactor, unit) =
            (if greater maxValue 1000000000 then (1000000000, str ''s/iter'')
             else if greater maxValue 1000000 then (1000000, str ''ms/iter'')
             else if greater maxValue 1000 then (1000, 0x03BC # str ''s/iter'')
             else (1, str ''ns/iter''))
      in (unit,
          map (\<lambda>trace. trace\<lparr>trace_y := Some (map (\<lambda>d. d / scaleFactor) (dataNs trace))\<rparr>)
            traces))"

section \<open>JSON text of key objects\<close>

text \<open>
  \<open>JSON.stringify\<close> of an object whose properties hold strings: the members in property
  order, each name and value quoted as \<open>QuoteJSONString\<close> of ECMAScript does. The quotation
  mark, the backslash and the control characters that have a short form are escaped with a
  backslash; the other control characters, and a surrogate code unit that is not part of a pair,
  are written as a backslash, \<open>u\<close> and four lower-case hexadecimal digits; every other code
  unit stands for itself.
\<close>

definition hex_digit :: "nat \<Rightarrow> jschar" where
  "hex_digit n = (if n < 10 then of_nat (48 + n) else of_nat (87 + n))"

definition hex_value :: "jschar \<Rightarrow> nat option" where
  "hex_value c =
     (let n = unat c in
      if 48 \<le> n \<and> n \<le> 57 then Some (n - 48)
      else if 97 \<le> n \<and> n \<le> 102 then Some (n - 87)
      else if 65 \<le> n \<and> n \<le> 70 then Some (n - 55)
      else None)"

definition UnicodeEscape :: "jschar \<Rightarrow> jstring" where
  "UnicodeEscape c =
     [0x5C, 0x75, hex_digit (unat c div 4096 mod 16), hex_digit (unat c div 256 mod 16),
      hex_digit (unat c div 16 mod 16), hex_digit (unat c mod 16)]"

definition is_high :: "jschar \<Rightarrow> bool" where
  "is_high c = (0xD800 \<le> c \<and> c \<le> 0xDBFF)"

definition is_low :: "jschar \<Rightarrow> bool" where
  "is_low c = (0xDC00 \<le> c \<and> c \<le> 0xDFFF)"

definition json_escape :: "jschar \<Rightarrow> jstring" where
  "json_escape c =
     (if c = 0x08 then [0x5C, 0x62]
      else if c = 0x09 then [0x5C, 0x74]
      else if c = 0x0A then [0x5C, 0x6E]
      else if c = 0x0C then [0x5C, 0x66]
      else if c = 0x0D then [0x5C, 0x72]
      else if c = 0x22 then [0x5C, 0x22]
      else if c = 0x5C then [0x5C, 0x5C]
      else if c < 0x20 \<or> is_high c \<or> is_low c then UnicodeEscape c
      else [c])"

fun quote_body :: "jstring \<Rightarrow> jstring" where
  "quote_body [] = []"
| "quote_body [c] = json_escape c"
| "quote_body (c # d # cs) =
     (if is_high c \<and> is_low d then c # d # quote_body cs
      else json_escape c @ quote_body (d # cs))"

definition QuoteJSONString :: "jstring \<Rightarrow> jstring" where
  "QuoteJSONString s = 0x22 # quote_body s @ [0x22]"

definition JSON_stringify :: "jsobject \<Rightarrow> jstring" where
  "JSON_stringify obj =
     0x7B # join [0x2C] (map (\<lambda>(k, v). QuoteJSONString k @ 0x3A # QuoteJSONString v) obj) @ [0x7D]"

text \<open>
  \<open>JSON.parse\<close>, for the texts that \<open>JSON.stringify\<close> writes for such objects: an opening
  brace, members (a quoted name, a colon, a quoted value) separated by commas, a closing brace,
  without white space.
  Inside a string every escape of the JSON grammar is read. Every member becomes an own
  property, also one named \<open>__proto__\<close>; a member read twice keeps its first place and its
  last value. A text of another form is a \<open>SyntaxError\<close>
  in this model, while an engine accepts more JSON than this (white space, values that are not
  strings); the functions below call \<open>parseKey\<close> only on a key that \<open>JSON.stringify\<close> wrote.
\<close>

definition simple_escape :: "jschar \<Rightarrow> jschar option" where
  "simple_escape e =
     (if e = 0x22 then Some 0x22
      else if e = 0x5C then Some 0x5C
      else if e = 0x2F then Some 0x2F
      else if e = 0x62 then Some 0x08
      else if e = 0x66 then Some 0x0C
      else if e = 0x6E then Some 0x0A
      else if e = 0x72 then Some 0x0D
      else if e = 0x74 then Some 0x09
      else None)"

definition hex4 :: "jschar \<Rightarrow> jschar \<Rightarrow> jschar \<Rightarrow> jschar \<Rightarrow> jschar option" where
  "hex4 h1 h2 h3 h4 =
     (case (hex_value h1, hex_value h2, hex_value h3, hex_value h4) of
        (Some a, Some b, Some c, Some d) \<Rightarrow> Some (of_nat (((a * 16 + b) * 16 + c) * 16 + d))
      | _ \<Rightarrow> None)"

fun decode_escape :: "jstring \<Rightarrow> (jschar \<times> jstring) option" where
  "decode_escape [] = None"
| "decode_escape (e # es) =
     (if e = 0x75 then
        (case es of
           h1 # h2 # h3 # h4 # rest \<Rightarrow> map_option (\<lambda>x. (x, rest)) (hex4 h1 h2 h3 h4)
         | _ \<Rightarrow> None)
      else map_option (\<lambda>x. (x, es)) (simple_escape e))"

lemma decode_escape_length: "decode_escape cs = Some (x, r) \<Longrightarrow> length r < length cs"
  by (cases cs) (auto split: if_splits list.splits)

function unquote :: "jstring \<Rightarrow> (jstring \<times> jstring) option" where
  "unquote [] = None"
| "unquote (c # cs) =
     (if c = 0x22 then Some ([], cs)
      else if c = 0x5C then
        (case decode_escape cs of
           None \<Rightarrow> None
         | Some (x, rest) \<Rightarrow> map_option (\<lambda>(s, r). (x # s, r)) (unquote rest))
      else if c < 0x20 then None
      else map_option (\<lambda>(s, r). (c # s, r)) (unquote cs))"
  by pat_completeness auto
termination
  by (relation "measure length") (auto dest: decode_escape_length)

lemma unquote_length: "unquote cs = Some (s, r) \<Longrightarrow> length r < length cs"
proof (induction cs arbitrary: s r rule: unquote.induct)
  case 1
  then show ?case by simp
next
  case (2 c cs)
  show ?case
  proof (cases "c = 0x22")
    case True
    with 2 show ?thesis by simp
  next
    case nq: False
    show ?thesis
    proof (cases "c = 0x5C")
      case True
      with nq "2.prems" obtain x rest s' where
        d: "decode_escape cs = Some (x, rest)" and u: "unquote rest = Some (s', r)"
        by (auto split: option.splits)
      from "2.IH"(1) [OF nq True d refl u] decode_escape_length [OF d]
      show ?thesis by simp
    next
      case False
      with nq "2.prems" obtain s' where u: "unquote cs = Some (s', r)" and "\<not> c < 0x20"
        by (auto split: if_splits)
      with "2.IH"(2) [OF nq False] show ?thesis by fastforce
    qed
  qed
qed

definition parse_member :: "jstring \<Rightarrow> ((jstring \<times> jstring) \<times> jstring) option" where
  "parse_member text =
     (case text of
        [] \<Rightarrow> None
      | c # cs \<Rightarrow>
          if c \<noteq> 0x22 then None
          else (case unquote cs of
                  None \<Rightarrow> None
                | Some (k, r1) \<Rightarrow>
                    (case r1 of
                       c1 # c2 # r2 \<Rightarrow>
                         if c1 = 0x3A \<and> c2 = 0x22
                         then map_option (\<lambda>(v, r3). ((k, v), r3)) (unquote r2)
                         else None
                     | _ \<Rightarrow> None)))"

lemma parse_member_length:
  "parse_member text = Some (kv, rest) \<Longrightarrow> length rest < length text"
  by (auto simp: parse_member_def split: list.splits if_splits option.splits
        dest!: unquote_length)

function parse_members :: "jstring \<Rightarrow> jsobject \<Rightarrow> error + jsobject" where
  "parse_members text obj =
     (case parse_member text of
        None \<Rightarrow> Inl SyntaxError
      | Some ((k, v), rest) \<Rightarrow>
          (case rest of
             [] \<Rightarrow> Inl SyntaxError
           | c # r \<Rightarrow>
               if c = 0x7D \<and> r = [] then Inr (define_property k v obj)
               else if c = 0x2C then parse_members r (define_property k v obj)
               else Inl SyntaxError))"
  by pat_completeness auto
termination
  by (relation "measure (\<lambda>(text, obj). length text)") (auto dest!: parse_member_length)

declare parse_members.simps [simp del]

definition JSON_parse :: "jstring \<Rightarrow> error + jsobject" where
  "JSON_parse text =
     (case text of
        [] \<Rightarrow> Inl SyntaxError
      | c # cs \<Rightarrow>
          if c \<noteq> 0x7B then Inl SyntaxError
          else if cs = [0x7D] then Inr []
          else parse_members cs [])"

section \<open>Key codec\<close>

text \<open>
  \<open>own_property\<close> is the own property of a result typed by the interface: \<open>value\<close>,
  \<open>unit\<close> and, when present, \<open>range\<close> are own properties beside those of \<open>props\<close>.
  \<open>result_hasOwnProperty\<close> is the call \<open>benchItem.hasOwnProperty(s)\<close>, which throws when the
  result has an own property of the name \<open>hasOwnProperty\<close>. \<open>buildKey_fields\<close> is the loop
  of \<open>buildKey\<close> over the schema, with the key object built so far; \<open>parseKey_fields\<close> is the
  loop of \<open>parseKey\<close>.
\<close>

definition own_property :: "BenchmarkResult \<Rightarrow> jstring \<Rightarrow> json option" where
  "own_property benchItem s =
     (if s = str ''value'' then Some (JNum (value' benchItem))
      else if s = str ''unit'' then Some (JStr (unit' benchItem))
      else if s = str ''range'' then map_option JStr (range' benchItem)
      else map_of (props benchItem) s)"

definition result_hasOwnProperty :: "BenchmarkResult \<Rightarrow> jstring \<Rightarrow> error + bool" where
  "result_hasOwnProperty benchItem s =
     (if own_property benchItem (str ''hasOwnProperty'') \<noteq> None then Inl TypeError
      else Inr (own_property benchItem s \<noteq> None))"

fun buildKey_fields ::
  "(real \<Rightarrow> jstring) \<Rightarrow> BenchmarkResult \<Rightarrow> jstring list \<Rightarrow> jsobject \<Rightarrow> error + jsobject" where
  "buildKey_fields nts benchItem [] key = Inr key"
| "buildKey_fields nts benchItem (s # schema) key =
     (case result_hasOwnProperty benchItem s of
        Inl e \<Rightarrow> Inl e
      | Inr own \<Rightarrow>
          if own then
            (case toString nts (the (own_property benchItem s)) of
               Inl e \<Rightarrow> Inl e
             | Inr t \<Rightarrow> buildKey_fields nts benchItem schema (set_property s t key))
          else buildKey_fields nts benchItem schema (set_property s (str ''-'') key))"

definition buildKey ::
  "(real \<Rightarrow> jstring) \<Rightarrow> BenchmarkResult \<Rightarrow> jstring list \<Rightarrow> error + jstring" where
  "buildKey nts benchItem schema =
     (case buildKey_fields nts benchItem schema [] of
        Inl e \<Rightarrow> Inl e
      | Inr key \<Rightarrow> Inr (JSON_stringify key))"

fun parseKey_fields :: "jstring list \<Rightarrow> jsobject \<Rightarrow> error + jsobject" where
  "parseKey_fields [] key = Inr key"
| "parseKey_fields (s # schema) key =
     (case hasOwnProperty key s of
        Inl e \<Rightarrow> Inl e
      | Inr own \<Rightarrow>
          if \<not> own then parseKey_fields schema (set_property s (str ''-'') key)
          else parseKey_fields schema key)"

definition parseKey :: "jstring \<Rightarrow> jstring list \<Rightarrow> error + jsobject" where
  "parseKey keyString schema =
     (case JSON_parse keyString of
        Inl e \<Rightarrow> Inl e
      | Inr key \<Rightarrow> parseKey_fields schema key)"

text \<open>
  Notions used to state the properties of the key codec. \<open>field_text\<close> is what a record
  shows in a field: the text of the value, and the sentinel \<open>-\<close> when the record does not have
  the field. \<open>field_value\<close> is the value itself, with the sentinel for a missing field. A record
  is \<open>printable\<close> on a field list when \<open>buildKey\<close> can read and print these fields: the
  record does not hide the method \<open>hasOwnProperty\<close> (which is called once per field), and none
  of the fields is \<open>null\<close> or a value without a text. \<open>key_object\<close> is the object in which
  every field of the list has been assigned its text, in the order of the list.
\<close>

definition field_text :: "(real \<Rightarrow> jstring) \<Rightarrow> BenchmarkResult \<Rightarrow> jstring \<Rightarrow> jstring" where
  "field_text nts R f = (case own_property R f of None \<Rightarrow> str ''-'' | Some v \<Rightarrow> show_json nts v)"

definition printable :: "BenchmarkResult \<Rightarrow> jstring list \<Rightarrow> bool" where
  "printable R F =
     ((F \<noteq> [] \<longrightarrow> own_property R (str ''hasOwnProperty'') = None)
      \<and> (\<forall>f \<in> set F. case own_property R f of
                        None \<Rightarrow> True
                      | Some v \<Rightarrow> v \<noteq> JNull \<and> has_text v))"


definition key_object :: "(real \<Rightarrow> jstring) \<Rightarrow> BenchmarkResult \<Rightarrow> jstring list \<Rightarrow> jsobject" where
  "key_object nts R F = foldl (\<lambda>key f. set_property f (field_text nts R f) key) [] F"

section \<open>Trace builder, schema retrieval, legend and tooltip\<close>

text \<open>
  \<open>Object.groupBy\<close>: the groups in the order in which their keys first occur, the elements of
  a group in input order; the callback may throw. (An engine enumerates keys that are array
  indices first; the keys used here are JSON texts, which start with a brace.)
  \<open>map_throwing\<close> is \<open>Array.prototype.map\<close> with a callback that may throw: the first exception
  ends it.
\<close>

fun add_to_group :: "jstring \<Rightarrow> 'a \<Rightarrow> (jstring \<times> 'a list) list \<Rightarrow> (jstring \<times> 'a list) list" where
  "add_to_group k x [] = [(k, [x])]"
| "add_to_group k x ((k', xs) # groups) =
     (if k = k' then (k', xs @ [x]) # groups else (k', xs) # add_to_group k x groups)"

fun Object_groupBy ::
  "'a list \<Rightarrow> ('a \<Rightarrow> error + jstring) \<Rightarrow> (jstring \<times> 'a list) list \<Rightarrow> error + (jstring \<times> 'a list) list" where
  "Object_groupBy [] callback groups = Inr groups"
| "Object_groupBy (x # xs) callback groups =
     (case callback x of
        Inl e \<Rightarrow> Inl e
      | Inr k \<Rightarrow> Object_groupBy xs callback (add_to_group k x groups))"

fun map_throwing :: "('a \<Rightarrow> error + 'b) \<Rightarrow> 'a list \<Rightarrow> error + 'b list" where
  "map_throwing f [] = Inr []"
| "map_throwing f (x # xs) =
     (case f x of
        Inl e \<Rightarrow> Inl e
      | Inr y \<Rightarrow> (case map_throwing f xs of Inl e \<Rightarrow> Inl e | Inr ys \<Rightarrow> Inr (y # ys)))"

definition separateAllTraces ::
  "(real \<Rightarrow> jstring) \<Rightarrow> Benchmark list \<Rightarrow> jstring list \<Rightarrow> error + Trace list" where
  "separateAllTraces nts commits schema =
     (let data = concat (map (\<lambda>commitEntry.
                    map (\<lambda>bench. \<lparr>obs_commit = commit commitEntry, obs_date = date commitEntry,
                                  obs_bench = bench\<rparr>)
                      (benches commitEntry)) commits)
      in case Object_groupBy data (\<lambda>benchEntry. buildKey nts (obs_bench benchEntry) schema) [] of
           Inl e \<Rightarrow> Inl e
         | Inr groupedData \<Rightarrow>
             map_throwing (\<lambda>(keyString, dataset').
               case parseKey keyString schema of
                 Inl e \<Rightarrow> Inl e
               | Inr metadata' \<Rightarrow>
                   (case map_throwing (\<lambda>d. getNanoseconds (value' (obs_bench d)) (unit' (obs_bench d)))
                           dataset' of
                      Inl e \<Rightarrow> Inl e
                    | Inr dataNs' \<Rightarrow>
                        Inr \<lparr>metadata = set_property (str ''unit'') (str ''ns/iter'') metadata',
                             trace_x = map obs_date dataset',
                             dataNs = dataNs',
                             dataset = dataset',
                             showlegend = True,
                             hoverinfo = str ''text'',
                             trace_y = None, trace_name = None, trace_text = None\<rparr>))
               groupedData)"

text \<open>
  The list that \<open>separateAllTraces\<close> calls \<open>data\<close>: the results of all history entries, in
  input order, each with the commit and the date of its entry.
\<close>

definition observations :: "Benchmark list \<Rightarrow> observation list" where
  "observations commits =
     concat (map (\<lambda>commitEntry.
               map (\<lambda>bench. \<lparr>obs_commit = commit commitEntry, obs_date = date commitEntry,
                             obs_bench = bench\<rparr>)
                 (benches commitEntry)) commits)"

text \<open>
  The value of \<open>window.BENCHMARK_DATA.schema\<close> (or \<open>groupBy\<close>), passed as an argument:
  absent, a JSON primitive, an array, or an object from suite names to whatever the document
  holds for them. \<open>suite_entry\<close> is the own property of the table for a suite name (an array
  has its elements and its \<open>length\<close>); \<open>hides_hasOwnProperty\<close> says that the table has an own
  property \<open>hasOwnProperty\<close>, so that the call of the method throws. The functions return the
  value for the suite together with the lines written by \<open>console.error\<close>; the default is an
  array of field names, and in the diagnostic it is printed as arrays are, joined by commas.
\<close>

datatype suite_table = TUndefined | TNull | TBool bool | TNum real | TStr jstring
  | TArr "json list" | TObj "(jstring \<times> json) list"

fun falsy :: "suite_table \<Rightarrow> bool" where
  "falsy TUndefined = True"
| "falsy TNull = True"
| "falsy (TBool b) = (\<not> b)"
| "falsy (TNum r) = (r = 0)"
| "falsy (TStr s) = (s = [])"
| "falsy (TArr vs) = False"
| "falsy (TObj m) = False"

fun typeof_object :: "suite_table \<Rightarrow> bool" where
  "typeof_object TNull = True"
| "typeof_object (TArr vs) = True"
| "typeof_object (TObj m) = True"
| "typeof_object _ = False"

fun hides_hasOwnProperty :: "suite_table \<Rightarrow> bool" where
  "hides_hasOwnProperty (TObj m) = (map_of m (str ''hasOwnProperty'') \<noteq> None)"
| "hides_hasOwnProperty _ = False"

fun suite_entry :: "suite_table \<Rightarrow> jstring \<Rightarrow> json option" where
  "suite_entry (TObj m) benchSet = map_of m benchSet"
| "suite_entry (TArr vs) benchSet =
     (if benchSet = str ''length'' then Some (JNum (real (length vs)))
      else (case array_index benchSet of
              None \<Rightarrow> None
            | Some i \<Rightarrow> if i < length vs then Some (vs ! i) else None))"
| "suite_entry _ benchSet = None"

definition retrieveSchema :: "suite_table \<Rightarrow> jstring \<Rightarrow> error + json \<times> jstring list" where
  "retrieveSchema schema benchSet =
     (let defaultSchema = [str ''name'', str ''platform'', str ''os'', str ''keySize'',
                           str ''api'', str ''category''];
          default = Inr (JArr (map JStr defaultSchema),
            [str ''No or invalid schema provided: defaulting to ['' @ join (str '','') defaultSchema
               @ str '']''])
      in if falsy schema \<or> \<not> typeof_object schema then default
         else if hides_hasOwnProperty schema then Inl TypeError
         else (case suite_entry schema benchSet of
                 None \<Rightarrow> default
               | Some entry \<Rightarrow> Inr (entry, [])))"

definition retrieveGroupBy :: "suite_table \<Rightarrow> jstring \<Rightarrow> error + json \<times> jstring list" where
  "retrieveGroupBy groupBy benchSet =
     (let defaultGroupBy = [str ''os''];
          default = Inr (JArr (map JStr defaultGroupBy),
            [str ''No or invalid groupBy provided: defaulting to ['' @ join (str '','') defaultGroupBy
               @ str '']''])
      in if falsy groupBy \<or> \<not> typeof_object groupBy then default
         else if hides_hasOwnProperty groupBy then Inl TypeError
         else (case suite_entry groupBy benchSet of
                 None \<Rightarrow> default
               | Some entry \<Rightarrow> Inr (entry, [])))"

text \<open>A field list as the renderer needs it: an array of strings.\<close>

fun field_list :: "json \<Rightarrow> bool" where
  "field_list (JArr vs) = list_all (\<lambda>v. case v of JStr s \<Rightarrow> True | _ \<Rightarrow> False) vs"
| "field_list _ = False"

text \<open>
  The legend name of a trace and the tooltip text of its observations. In \<open>getLegendName\<close>,
  \<open>trace.metadata[key]\<close> is a read, which also finds what the metadata inherits;
  \<open>property_text\<close> is the text that \<open>join\<close> gives to what was read. An inherited function
  is printed by the engine: \<open>builtin_text\<close> is the text in the form V8 uses (engines differ in
  the white space), and the value of \<open>__proto__\<close> is \<open>Object.prototype\<close>, which prints as any
  object.
\<close>

definition builtin_text :: "jstring \<Rightarrow> jstring" where
  "builtin_text k =
     (if k = str ''__proto__'' then str ''[object Object]''
      else str ''function '' @ (if k = str ''constructor'' then str ''Object'' else k)
             @ str ''() { [native code] }'')"

fun property_text :: "jstring lookup \<Rightarrow> jstring" where
  "property_text Undefined = []"
| "property_text (Own s) = s"
| "property_text (Inherited k) = builtin_text k"

definition getObservationTooltipText :: "(real \<Rightarrow> jstring) \<Rightarrow> jstring \<Rightarrow> observation \<Rightarrow> jstring" where
  "getObservationTooltipText nts name observation =
     (let value = value' (obs_bench observation);
          unit = unit' (obs_bench observation);
          range = range' (obs_bench observation);
          commitId = id' (obs_commit observation);
          message' = message (obs_commit observation);
          url' = url (obs_commit observation);
          rangeText = (case range of None \<Rightarrow> [] | Some r \<Rightarrow> r)
      in str ''<b>'' @ name @ str ''</b><br>value: '' @ nts value @ str '' '' @ unit @ str '' ''
           @ rangeText @ str ''<br>commit id: '' @ commitId @ str ''<br>commit name: '' @ message'
           @ str ''<br>commit url: '' @ url')"

definition getLegendName :: "Trace \<Rightarrow> jstring list \<Rightarrow> jstring list \<Rightarrow> jstring" where
  "getLegendName trace groupBy schema =
     (let orderedEntries = map (\<lambda>key. (key, get_property (metadata trace) key)) schema
      in join (str '' '')
           (map (\<lambda>(_, value). property_text value)
              (filter (\<lambda>(key, value). key \<notin> set groupBy \<and> key \<noteq> str ''unit'' \<and> value \<noteq> Undefined)
                 orderedEntries)))"

definition addLegendNameAndTooltip ::
  "(real \<Rightarrow> jstring) \<Rightarrow> Trace \<Rightarrow> jstring list \<Rightarrow> jstring list \<Rightarrow> Trace" where
  "addLegendNameAndTooltip nts trace groupBy schema =
     (let name = getLegendName trace groupBy schema
      in trace\<lparr>trace_name := Some name,
               trace_text := Some (map (\<lambda>observation. getObservationTooltipText nts name observation)
                                     (dataset trace))\<rparr>)"

text \<open>
  The decimal text of an integer, which is how \<open>Number.prototype.toString\<close> prints an
  integer of magnitude below \<open>10^21\<close>. \<open>integral_toString\<close> is the number printer of the
  concrete examples below, all of which print integers.
\<close>

fun decimal_digits :: "nat \<Rightarrow> jstring" where
  "decimal_digits n =
     (if n < 10 then [of_nat (48 + n)] else decimal_digits (n div 10) @ [of_nat (48 + n mod 10)])"

declare decimal_digits.simps [simp del]

definition integer_text :: "int \<Rightarrow> jstring" where
  "integer_text i = (if i < 0 then 0x2D # decimal_digits (nat (- i)) else decimal_digits (nat i))"

definition integral_toString :: "real \<Rightarrow> jstring" where
  "integral_toString r = integer_text \<lfloor>r\<rfloor>"

section \<open>Filter engine and history update\<close>

text \<open>
  A chart element of the page: its attributes and the \<open>display\<close> property of its inline
  style (\<open>None\<close> when the property is not set). The variable \<open>hiddenBy\<close> holds a number or,
  when it was read from the attribute, a string: \<open>+=\<close> on a string appends, \<open>-=\<close> and \<open>==\<close>
  convert it to a number first. \<open>StringToNumber\<close> reads an optionally signed decimal integer
  and makes any other non-empty text \<open>NaN\<close>; these are the texts the function itself stores.
  Counters are exact integers here. \<open>setChartHiddenStatus\<close> takes the elements of class
  \<open>benchmark-graphs\<close> and returns them updated.
\<close>

record chart =
  attributes :: "(jstring \<times> jstring) list"
  display :: "jstring option"

datatype hiddenBy_value = HNumber int | HNaN | HString jstring

definition StringToNumber :: "jstring \<Rightarrow> int option" where
  "StringToNumber s =
     (case s of
        [] \<Rightarrow> Some 0
      | c # cs \<Rightarrow>
          if c = 0x2D \<and> cs \<noteq> [] then map_option (\<lambda>n. - int n) (digits_value 0 cs)
          else if c = 0x2B \<and> cs \<noteq> [] then map_option int (digits_value 0 cs)
          else map_option int (digits_value 0 s))"

fun truthy :: "hiddenBy_value \<Rightarrow> bool" where
  "truthy (HNumber n) = (n \<noteq> 0)"
| "truthy HNaN = False"
| "truthy (HString s) = (s \<noteq> [])"

fun plus_one :: "hiddenBy_value \<Rightarrow> hiddenBy_value" where
  "plus_one (HNumber n) = HNumber (n + 1)"
| "plus_one HNaN = HNaN"
| "plus_one (HString s) = HString (s @ str ''1'')"

fun ToNumber :: "hiddenBy_value \<Rightarrow> hiddenBy_value" where
  "ToNumber (HString s) = (case StringToNumber s of None \<Rightarrow> HNaN | Some n \<Rightarrow> HNumber n)"
| "ToNumber v = v"

fun minus_one :: "hiddenBy_value \<Rightarrow> hiddenBy_value" where
  "minus_one v = (case ToNumber v of HNumber n \<Rightarrow> HNumber (n - 1) | _ \<Rightarrow> HNaN)"

fun loosely_zero :: "hiddenBy_value \<Rightarrow> bool" where
  "loosely_zero v = (ToNumber v = HNumber 0)"

fun ToString :: "hiddenBy_value \<Rightarrow> jstring" where
  "ToString (HNumber n) = integer_text n"
| "ToString HNaN = str ''NaN''"
| "ToString (HString s) = s"

definition setChartHiddenStatus :: "bool \<Rightarrow> jstring \<Rightarrow> jstring \<Rightarrow> chart list \<Rightarrow> chart list" where
  "setChartHiddenStatus hide key value charts =
     map (\<lambda>chart.
       if map_of (attributes chart) key = Some value then
         (let hiddenByAttribute = map_of (attributes chart) (str ''hidden-by'');
              hiddenBy = (case hiddenByAttribute of
                            None \<Rightarrow> HNumber 0
                          | Some a \<Rightarrow> if a = [] then HNumber 0 else HString a)
          in if hide then
               (let chart1 = chart\<lparr>display := Some (str ''none'')\<rparr>;
                    hiddenBy1 = plus_one hiddenBy
                in chart1\<lparr>attributes :=
                     AList.update (str ''hidden-by'') (ToString hiddenBy1) (attributes chart1)\<rparr>)
             else
               (let hiddenBy1 = (if truthy hiddenBy then minus_one hiddenBy else HNumber 0);
                    chart1 = (if loosely_zero hiddenBy1 then chart\<lparr>display := None\<rparr> else chart)
                in chart1\<lparr>attributes :=
                     AList.update (str ''hidden-by'') (ToString hiddenBy1) (attributes chart1)\<rparr>))
       else chart) charts"

text \<open>
  The data document and its update. \<open>Date.now()\<close> is the argument \<open>now\<close>, \<open>maxItems\<close> is an
  integer or \<open>null\<close>, and the function returns \<open>prevBench\<close> together with the updated document.
  The tables of the document are ordinary objects. The read \<open>data.entries[benchName]\<close> also
  finds what the table inherits: for an inherited name the value is not \<open>undefined\<close>, the
  second branch is taken, and the value has no method \<open>slice\<close>, so the call throws.
  \<open>splice(0, n)\<close> removes the first \<open>n\<close> entries (none for a negative \<open>n\<close>, all when \<open>n\<close> exceeds
  the length).
\<close>

record DataJson =
  lastUpdate :: int
  repoUrl :: jstring
  entries :: "(jstring \<times> Benchmark list) list"
  data_groupBy :: "(jstring \<times> jstring list) list option"
  data_schema :: "(jstring \<times> jstring list) list option"

definition addBenchmarkToDataJson ::
  "jstring list \<Rightarrow> jstring list \<Rightarrow> jstring \<Rightarrow> Benchmark \<Rightarrow> DataJson \<Rightarrow> int option \<Rightarrow> int
     \<Rightarrow> error + Benchmark option \<times> DataJson" where
  "addBenchmarkToDataJson groupBy schema benchName bench data maxItems now =
     (let data1 = data\<lparr>lastUpdate := now\<rparr>;
          data2 = (if data_groupBy data1 = None then data1\<lparr>data_groupBy := Some []\<rparr> else data1);
          data3 = (if data_schema data2 = None then data2\<lparr>data_schema := Some []\<rparr> else data2);
          data4 = data3\<lparr>data_groupBy := Some (set_property benchName groupBy (the (data_groupBy data3)))\<rparr>;
          data5 = data4\<lparr>data_schema := Some (set_property benchName schema (the (data_schema data4)))\<rparr>
      in case get_property (entries data5) benchName of
           Undefined \<Rightarrow>
             Inr (None, data5\<lparr>entries := set_property benchName [bench] (entries data5)\<rparr>)
         | Inherited name \<Rightarrow> Inl TypeError
         | Own suites \<Rightarrow>
             (let prevBench = find (\<lambda>e. id' (commit e) \<noteq> id' (commit bench)) (rev suites);
                  suites1 = suites @ [bench];
                  suites2 = (case maxItems of
                               None \<Rightarrow> suites1
                             | Some m \<Rightarrow>
                                 if int (length suites1) > m
                                 then drop (nat (int (length suites1) - m)) suites1
                                 else suites1)
              in Inr (prevBench, data5\<lparr>entries := set_property benchName suites2 (entries data5)\<rparr>)))"

text \<open>
  The last \<open>m\<close> entries of a list: the whole list when it has no more than \<open>m\<close>.
\<close>

definition lastN :: "int \<Rightarrow> 'a list \<Rightarrow> 'a list" where
  "lastN m xs = drop (length xs - nat m) xs"

section \<open>Properties of the unit normalizer\<close>

lemma Math_max_append: "Math_max (xs @ ys) = num_max (Math_max xs) (Math_max ys)"
proof (induction xs)
  case Nil
  show ?case by simp
next
  case (Cons a xs)
  have assoc: "num_max a (num_max b c) = num_max (num_max a b) c" for a b c
    by (cases a; cases b; cases c) (simp_all add: max.assoc)
  from Cons show ?case by (simp add: assoc)
qed

lemma Math_max_Finite:
  "xs \<noteq> [] \<Longrightarrow> Math_max (map Finite xs) = Finite (Max (set xs))"
proof (induction xs)
  case Nil
  then show ?case by simp
next
  case (Cons a xs)
  show ?case
  proof (cases "xs = []")
    case True
    then show ?thesis by simp
  next
    case False
    with Cons.IH have "Math_max (map Finite xs) = Finite (Max (set xs))" by simp
    with False show ?thesis by simp
  qed
qed

lemma Math_max_nested:
  "Math_max (map (\<lambda>t. Math_max (map Finite (f t))) ts) = Math_max (map Finite (concat (map f ts)))"
  by (induction ts) (simp_all add: Math_max_append)

lemma adjustDataAndUnit_max:
  assumes "concat (map dataNs traces) \<noteq> []"
  shows "Math_max (map (\<lambda>trace. Math_max (map Finite (dataNs trace))) traces)
         = Finite (Max (set (concat (map dataNs traces))))"
proof -
  have "Math_max (map Finite (concat (map dataNs traces)))
        = Finite (Max (set (concat (map dataNs traces))))"
    using assms by (rule Math_max_Finite)
  then show ?thesis by (simp only: Math_max_nested)
qed

text \<open>
  C4. For every non-empty collection of nanosecond values, spread over any number of traces,
  with \<open>m\<close> its maximum: the unit returned is \<open>s/iter\<close> and the divisor \<open>10^9\<close> when
  \<open>m > 10^9\<close>, else \<open>ms/iter\<close> and \<open>10^6\<close> when \<open>m > 10^6\<close>, else the microsecond unit and
  \<open>10^3\<close> when \<open>m > 10^3\<close>, else \<open>ns/iter\<close> and \<open>1\<close>; and the \<open>y\<close> values of every trace
  are its nanosecond values divided by that one divisor.
\<close>

theorem adjustDataAndUnit_display_unit:
  assumes "concat (map dataNs traces) \<noteq> []"
  shows "adjustDataAndUnit traces =
           (let m = Max (set (concat (map dataNs traces)));
                (unit, divisor) =
                  (if m > 1000000000 then (str ''s/iter'', 1000000000)
                   else if m > 1000000 then (str ''ms/iter'', 1000000)
                   else if m > 1000 then (0x03BC # str ''s/iter'', 1000)
                   else (str ''ns/iter'', 1))
            in (unit,
                map (\<lambda>t. t\<lparr>trace_y := Some (map (\<lambda>d. d / divisor) (dataNs t))\<rparr>) traces))"
proof -
  note m = adjustDataAndUnit_max [OF assms]
  show ?thesis
    unfolding adjustDataAndUnit_def Let_def m greater.simps
    by simp
qed

text \<open>The case of the specification: \<open>[1200000000, 500]\<close> ns are shown in seconds, as
  \<open>6/5 = 1.2\<close> and \<open>1/2000000 = 0.0000005\<close>.\<close>

theorem adjustDataAndUnit_display_unit_witness:
  "concat (map dataNs
      [\<lparr>metadata = [], trace_x = [], dataNs = [1200000000, 500], dataset = [],
        showlegend = True, hoverinfo = str ''text'', trace_y = None, trace_name = None,
        trace_text = None\<rparr>]) \<noteq> []
   \<and> adjustDataAndUnit
      [\<lparr>metadata = [], trace_x = [], dataNs = [1200000000, 500], dataset = [],
        showlegend = True, hoverinfo = str ''text'', trace_y = None, trace_name = None,
        trace_text = None\<rparr>]
     = (str ''s/iter'',
        [\<lparr>metadata = [], trace_x = [], dataNs = [1200000000, 500], dataset = [],
          showlegend = True, hoverinfo = str ''text'', trace_y = Some [6 / 5, 1 / 2000000],
          trace_name = None, trace_text = None\<rparr>])"
  using adjustDataAndUnit_display_unit
    [of "[\<lparr>metadata = [], trace_x = [], dataNs = [1200000000, 500], dataset = [],
        showlegend = True, hoverinfo = str ''text'', trace_y = None, trace_name = None,
        trace_text = None\<rparr>]"]
  by simp

text \<open>
  C6. Conversion to nanoseconds returns a number exactly when the unit's first code unit is
  one of \<open>n\<close>, \<open>u\<close>, the micro sign, Greek mu, \<open>m\<close>, \<open>s\<close>; the value is then multiplied by
  \<open>1\<close>, \<open>10^3\<close>, \<open>10^3\<close>, \<open>10^3\<close>, \<open>10^6\<close>, \<open>10^9\<close>. For every other first code unit, and
  for the empty unit, an \<open>Error\<close> naming the offending identifier is thrown.
\<close>

theorem getNanoseconds_prefixes:
  "(\<exists>r. getNanoseconds v u = Inr r)
     = (u \<noteq> [] \<and> hd u \<in> {of_char CHR ''n'', of_char CHR ''u'', 0x00B5, 0x03BC,
                           of_char CHR ''m'', of_char CHR ''s''})
   \<and> getNanoseconds v (of_char CHR ''n'' # cs) = Inr (v * 1)
   \<and> getNanoseconds v (of_char CHR ''u'' # cs) = Inr (v * 1000)
   \<and> getNanoseconds v (0x00B5 # cs) = Inr (v * 1000)
   \<and> getNanoseconds v (0x03BC # cs) = Inr (v * 1000)
   \<and> getNanoseconds v (of_char CHR ''m'' # cs) = Inr (v * 1000000)
   \<and> getNanoseconds v (of_char CHR ''s'' # cs) = Inr (v * 1000000000)
   \<and> getNanoseconds v [] = Inl (Error (str ''undefined unit: undefined''))
   \<and> (if c \<in> {of_char CHR ''n'', of_char CHR ''u'', 0x00B5, 0x03BC,
                of_char CHR ''m'', of_char CHR ''s''}
      then \<exists>r. getNanoseconds v (c # cs) = Inr r
      else getNanoseconds v (c # cs) = Inl (Error (str ''undefined unit: '' @ [c])))"
proof -
  have ok: "(\<exists>r. getNanoseconds v u = Inr r)
     = (u \<noteq> [] \<and> hd u \<in> {of_char CHR ''n'', of_char CHR ''u'', 0x00B5, 0x03BC,
                           of_char CHR ''m'', of_char CHR ''s''})" for u
    by (cases u) (simp_all add: getNanoseconds_def Let_def)
  have other: "getNanoseconds v (c # cs) = Inl (Error (str ''undefined unit: '' @ [c]))"
    if "c \<notin> {of_char CHR ''n'', of_char CHR ''u'', 0x00B5, 0x03BC,
                of_char CHR ''m'', of_char CHR ''s''}"
    using that by (simp add: getNanoseconds_def Let_def)
  have known: "\<exists>r. getNanoseconds v (c # cs) = Inr r"
    if "c \<in> {of_char CHR ''n'', of_char CHR ''u'', 0x00B5, 0x03BC,
                of_char CHR ''m'', of_char CHR ''s''}"
    using that ok [of "c # cs"] by simp
  show ?thesis
    using ok other known by (simp add: getNanoseconds_def Let_def str_def)
qed

section \<open>Properties of ordinary objects\<close>

lemma precedes_asym: "precedes k k' \<Longrightarrow> \<not> precedes k' k"
  by (auto simp: precedes_def split: option.splits)

lemma precedes_trans: "precedes a b \<Longrightarrow> precedes b c \<Longrightarrow> precedes a c"
  by (auto simp: precedes_def split: option.splits)

lemma map_of_insert_property:
  "map_of obj k = None \<Longrightarrow> map_of (insert_property k v obj) = (map_of obj)(k \<mapsto> v)"
proof (induction obj)
  case Nil
  show ?case by simp
next
  case (Cons p ps)
  obtain k' v' where p: "p = (k', v')" by (cases p)
  from Cons.prems p have ne: "k' \<noteq> k" and none: "map_of ps k = None"
    by (auto split: if_splits)
  show ?case
  proof (cases "precedes k (fst p)")
    case True
    then show ?thesis by (auto simp: p)
  next
    case False
    with Cons.IH [OF none] ne show ?thesis by (auto simp: p)
  qed
qed

lemma map_of_define_property: "map_of (define_property k v obj) = (map_of obj)(k \<mapsto> v)"
  by (simp add: define_property_def map_of_insert_property update_conv')

lemma keys_insert_property: "fst ` set (insert_property k v obj) = insert k (fst ` set obj)"
  by (induction obj) auto

lemma insert_property_last:
  "\<forall>p \<in> set obj. \<not> precedes k (fst p) \<Longrightarrow> insert_property k v obj = obj @ [(k, v)]"
  by (induction obj) simp_all

lemma enumerated_insert_property:
  assumes "enumerated obj" and "k \<notin> fst ` set obj"
  shows "enumerated (insert_property k v obj)"
  using assms
proof (induction obj)
  case Nil
  show ?case by (simp add: enumerated_def)
next
  case (Cons p ps)
  from Cons.prems have ps: "enumerated ps" and k: "k \<notin> fst ` set ps" and kp: "k \<noteq> fst p"
    and d: "fst p \<notin> fst ` set ps"
    and le: "\<forall>q \<in> set ps. \<not> precedes (fst q) (fst p)"
    by (auto simp: enumerated_def)
  show ?case
  proof (cases "precedes k (fst p)")
    case True
    have "\<forall>q \<in> set (p # ps). \<not> precedes (fst q) k"
      using True le precedes_asym [OF True] precedes_trans [OF _ True] by auto
    with True Cons.prems show ?thesis by (auto simp: enumerated_def)
  next
    case False
    from Cons.IH [OF ps k] have e: "enumerated (insert_property k v ps)" .
    have "fst ` set (insert_property k v ps) = insert k (fst ` set ps)"
      by (rule keys_insert_property)
    with False e d kp le show ?thesis
      by (auto simp: enumerated_def)
  qed
qed

lemma enumerated_define_property: "enumerated obj \<Longrightarrow> enumerated (define_property k v obj)"
proof (cases "map_of obj k")
  case None
  assume e: "enumerated obj"
  from None have "k \<notin> fst ` set obj" by (simp add: map_of_eq_None_iff)
  from enumerated_insert_property [OF e this] None show ?thesis
    by (simp add: define_property_def)
next
  case (Some a)
  assume e: "enumerated obj"
  from Some have "k \<in> fst ` set obj" by (metis map_of_eq_None_iff option.distinct(1))
  then have "map fst (AList.update k v obj) = map fst obj" by (simp add: update_keys)
  with e Some show ?thesis by (simp add: define_property_def enumerated_def)
qed

lemma enumerated_set_property: "enumerated obj \<Longrightarrow> enumerated (set_property k v obj)"
  by (simp add: set_property_def enumerated_define_property)

lemma foldl_define_enumerated:
  "enumerated (acc @ ps) \<Longrightarrow>
   foldl (\<lambda>obj (k, v). define_property k v obj) acc ps = acc @ ps"
proof (induction ps arbitrary: acc)
  case Nil
  show ?case by simp
next
  case (Cons p ps)
  obtain k v where p: "p = (k, v)" by (cases p)
  from Cons.prems p have fresh: "k \<notin> fst ` set acc"
    and last: "\<forall>q \<in> set acc. \<not> precedes k (fst q)"
    by (auto simp: enumerated_def sorted_wrt_append)
  from fresh have "map_of acc k = None" by (simp add: map_of_eq_None_iff)
  with last have u: "define_property k v acc = acc @ [(k, v)]"
    by (simp add: define_property_def insert_property_last)
  from Cons.prems p have "enumerated ((acc @ [(k, v)]) @ ps)" by simp
  from Cons.IH [OF this] show ?case by (simp add: p u)
qed

section \<open>Properties of the JSON text\<close>

lemma unat_of_nat_jschar: "m < 65536 \<Longrightarrow> unat (of_nat m :: jschar) = m"
  by (simp add: unat_of_nat)

lemma hex_value_hex_digit:
  assumes "k < 16"
  shows "hex_value (hex_digit k) = Some k"
proof -
  define m where "m = (if k < 10 then 48 + k else 87 + k)"
  have d: "hex_digit k = of_nat m"
    by (simp only: hex_digit_def m_def if_distrib [of of_nat])
  have "m < 65536" using assms by (simp add: m_def)
  then have "unat (hex_digit k) = m"
    by (simp only: d unat_of_nat_jschar)
  then show ?thesis
    using assms by (auto simp: hex_value_def Let_def m_def split: if_splits)
qed

lemma nibbles: "n < 65536 \<Longrightarrow>
  ((n div 4096 mod 16 * 16 + n div 256 mod 16) * 16 + n div 16 mod 16) * 16 + n mod 16 = (n::nat)"
proof -
  assume less: "n < 65536"
  have a: "n div 256 = (n div 16) div 16" by (simp add: div_mult2_eq)
  have b: "n div 4096 = ((n div 16) div 16) div 16" by (simp add: div_mult2_eq)
  have c: "n div 4096 mod 16 = n div 4096" using less by (simp add: less_mult_imp_div_less)
  show ?thesis unfolding c unfolding a b
    by (metis (no_types) mult.commute mult_div_mod_eq)
qed

lemma unat_jschar_less: "unat (c :: jschar) < 65536"
  using unsigned_less [of c, where ?'a = nat] by simp

lemma hex4_UnicodeEscape:
  "hex4 (hex_digit (unat c div 4096 mod 16)) (hex_digit (unat c div 256 mod 16))
        (hex_digit (unat c div 16 mod 16)) (hex_digit (unat c mod 16)) = Some c"
proof -
  let ?n = "unat c"
  have "(of_nat (((?n div 4096 mod 16 * 16 + ?n div 256 mod 16) * 16 + ?n div 16 mod 16) * 16
            + ?n mod 16) :: jschar) = of_nat ?n"
    by (simp only: nibbles [OF unat_jschar_less])
  also have "\<dots> = c" by simp
  finally show ?thesis
    by (simp only: hex4_def hex_value_hex_digit mod_less_divisor zero_less_numeral
          prod.case option.case)
qed

lemma decode_UnicodeEscape: "decode_escape (tl (UnicodeEscape c) @ t) = Some (c, t)"
  by (simp add: UnicodeEscape_def hex4_UnicodeEscape)

lemma surrogate_plain:
  "is_high c \<or> is_low c \<Longrightarrow> c \<noteq> 0x22 \<and> c \<noteq> 0x5C \<and> \<not> c < 0x20"
  by (auto simp: is_high_def is_low_def word_le_nat_alt word_less_nat_alt)

lemma unquote_json_escape:
  "unquote (json_escape c @ t) = map_option (\<lambda>(s, r). (c # s, r)) (unquote t)"
proof -
  have u: "unquote (UnicodeEscape c @ t) = map_option (\<lambda>(s, r). (c # s, r)) (unquote t)"
    using decode_UnicodeEscape [of c t] by (simp add: UnicodeEscape_def)
  show ?thesis
    by (simp add: json_escape_def u simple_escape_def)
qed

lemma unquote_quote_body:
  "unquote (quote_body s @ 0x22 # rest) = Some (s, rest)"
proof (induction s rule: quote_body.induct)
  case 1
  show ?case by simp
next
  case (2 c)
  have "unquote (json_escape c @ 0x22 # rest) = Some ([c], rest)"
    by (simp only: unquote_json_escape) simp
  then show ?case by simp
next
  case (3 c d cs)
  show ?case
  proof (cases "is_high c \<and> is_low d")
    case True
    from True surrogate_plain [of c] surrogate_plain [of d] "3.IH"(1) [OF True]
    show ?thesis by simp
  next
    case False
    then have "(is_high c \<and> is_low d) = False" by simp
    then have "quote_body (c # d # cs) @ 0x22 # rest
                 = json_escape c @ (quote_body (d # cs) @ 0x22 # rest)"
      by (simp only: quote_body.simps if_False append_assoc)
    then have "unquote (quote_body (c # d # cs) @ 0x22 # rest)
                 = map_option (\<lambda>(s, r). (c # s, r)) (unquote (quote_body (d # cs) @ 0x22 # rest))"
      by (simp only: unquote_json_escape)
    also have "\<dots> = Some (c # d # cs, rest)"
      by (simp only: "3.IH"(2) [OF False]) simp
    finally show ?thesis .
  qed
qed

lemma parse_member_text:
  "parse_member (QuoteJSONString k @ 0x3A # QuoteJSONString v @ rest) = Some ((k, v), rest)"
  by (simp add: parse_member_def QuoteJSONString_def unquote_quote_body)

lemma parse_members_join:
  "ps \<noteq> [] \<Longrightarrow>
   parse_members
     (join [0x2C] (map (\<lambda>(k, v). QuoteJSONString k @ 0x3A # QuoteJSONString v) ps) @ [0x7D]) obj
   = Inr (foldl (\<lambda>obj (k, v). define_property k v obj) obj ps)"
proof (induction ps arbitrary: obj)
  case Nil
  then show ?case by simp
next
  case (Cons p ps)
  obtain k v where p: "p = (k, v)" by (cases p)
  show ?case
  proof (cases ps)
    case Nil
    have "parse_member (QuoteJSONString k @ 0x3A # QuoteJSONString v @ [0x7D]) = Some ((k, v), [0x7D])"
      by (rule parse_member_text)
    then show ?thesis
      by (simp add: p Nil parse_members.simps [of "QuoteJSONString k @ 0x3A # QuoteJSONString v @ [0x7D]"])
  next
    case (Cons q qs)
    let ?rest = "join [0x2C] (map (\<lambda>(k, v). QuoteJSONString k @ 0x3A # QuoteJSONString v) ps) @ [0x7D]"
    have pm: "parse_member (QuoteJSONString k @ 0x3A # QuoteJSONString v @ 0x2C # ?rest)
                = Some ((k, v), 0x2C # ?rest)"
      by (rule parse_member_text)
    have "parse_members (QuoteJSONString k @ 0x3A # QuoteJSONString v @ 0x2C # ?rest) obj
            = parse_members ?rest (define_property k v obj)"
      by (subst parse_members.simps) (simp add: pm)
    also have "\<dots> = Inr (foldl (\<lambda>obj (k, v). define_property k v obj) (define_property k v obj) ps)"
      using Cons.IH [of "define_property k v obj"] Cons by simp
    finally show ?thesis by (simp add: p Cons)
  qed
qed

lemma JSON_parse_stringify:
  "JSON_parse (JSON_stringify obj) = Inr (foldl (\<lambda>obj (k, v). define_property k v obj) [] obj)"
proof (cases obj)
  case Nil
  then show ?thesis by (simp add: JSON_parse_def JSON_stringify_def)
next
  case (Cons p ps)
  obtain k v where p: "p = (k, v)" by (cases p)
  have "hd (join [0x2C] (map (\<lambda>(k, v). QuoteJSONString k @ 0x3A # QuoteJSONString v) obj) @ [0x7D]) = 0x22"
    by (cases ps) (simp_all add: Cons p QuoteJSONString_def)
  then have ne: "join [0x2C] (map (\<lambda>(k, v). QuoteJSONString k @ 0x3A # QuoteJSONString v) obj) @ [0x7D] \<noteq> [0x7D]"
    by auto
  from Cons have "obj \<noteq> []" by simp
  from parse_members_join [OF this] ne show ?thesis
    by (simp add: JSON_parse_def JSON_stringify_def)
qed

lemma JSON_parse_stringify_enumerated:
  "enumerated obj \<Longrightarrow> JSON_parse (JSON_stringify obj) = Inr obj"
  using foldl_define_enumerated [of "[]" obj] by (simp add: JSON_parse_stringify)

section \<open>Properties of the key codec\<close>

lemma map_of_set_property:
  "map_of (set_property k v obj)
     = (if k = str ''__proto__'' \<and> map_of obj k = None then map_of obj else (map_of obj)(k \<mapsto> v))"
  by (auto simp: set_property_def map_of_define_property)

lemma map_of_foldl_set_property:
  "map_of key (str ''__proto__'') = None \<Longrightarrow>
   map_of (foldl (\<lambda>key f. set_property f (g f) key) key F) f
     = (if f \<in> set F \<and> f \<noteq> str ''__proto__'' then Some (g f) else map_of key f)"
proof (induction F arbitrary: key)
  case Nil
  show ?case by simp
next
  case (Cons s F)
  have "map_of (set_property s (g s) key) (str ''__proto__'') = None"
    using Cons.prems by (simp add: map_of_set_property)
  from Cons.IH [OF this] Cons.prems show ?case
    by (auto simp: map_of_set_property)
qed

lemma enumerated_foldl_set_property:
  "enumerated key \<Longrightarrow> enumerated (foldl (\<lambda>key f. set_property f (g f) key) key F)"
  by (induction F arbitrary: key) (simp_all add: enumerated_set_property)


lemma enumerated_key_object: "enumerated (key_object nts R F)"
  unfolding key_object_def by (rule enumerated_foldl_set_property) (simp add: enumerated_def)

lemma map_of_key_object:
  "map_of (key_object nts R F) f
     = (if f \<in> set F \<and> f \<noteq> str ''__proto__'' then Some (field_text nts R f) else None)"
  unfolding key_object_def by (simp add: map_of_foldl_set_property)

lemma keys_key_object: "fst ` set (key_object nts R F) = set F - {str ''__proto__''}"
proof -
  have "dom (map_of (key_object nts R F)) = set F - {str ''__proto__''}"
    by (auto simp: map_of_key_object dom_def)
  then show ?thesis by (simp add: dom_map_of_conv_image_fst)
qed


lemma JSON_stringify_key_object_inj:
  "JSON_stringify (key_object nts R1 F) = JSON_stringify (key_object nts R2 F)
     \<longleftrightarrow> key_object nts R1 F = key_object nts R2 F"
proof
  assume "JSON_stringify (key_object nts R1 F) = JSON_stringify (key_object nts R2 F)"
  then have "JSON_parse (JSON_stringify (key_object nts R1 F))
               = JSON_parse (JSON_stringify (key_object nts R2 F))" by simp
  then show "key_object nts R1 F = key_object nts R2 F"
    by (simp add: JSON_parse_stringify_enumerated enumerated_key_object)
qed simp

lemma printable_Cons:
  "printable R (s # F) \<longleftrightarrow>
     own_property R (str ''hasOwnProperty'') = None
     \<and> (case own_property R s of None \<Rightarrow> True | Some v \<Rightarrow> v \<noteq> JNull \<and> has_text v)
     \<and> printable R F"
  by (auto simp: printable_def)

lemma buildKey_fields_printable:
  "printable R F \<Longrightarrow>
   buildKey_fields nts R F key
     = Inr (foldl (\<lambda>key f. set_property f (field_text nts R f) key) key F)"
proof (induction F arbitrary: key)
  case Nil
  show ?case by simp
next
  case (Cons s F)
  from Cons.prems have h: "own_property R (str ''hasOwnProperty'') = None"
    and s: "case own_property R s of None \<Rightarrow> True | Some v \<Rightarrow> v \<noteq> JNull \<and> has_text v"
    and p: "printable R F"
    by (simp_all add: printable_Cons)
  show ?case
  proof (cases "own_property R s")
    case None
    with h show ?thesis
      by (simp add: Cons.IH [OF p] field_text_def result_hasOwnProperty_def)
  next
    case (Some v)
    with s have "v \<noteq> JNull" "has_text v" by simp_all
    with Some h show ?thesis
      by (simp add: Cons.IH [OF p] field_text_def result_hasOwnProperty_def toString_def)
  qed
qed

lemma buildKey_fields_throws:
  "\<not> printable R F \<Longrightarrow> buildKey_fields nts R F key = Inl TypeError"
proof (induction F arbitrary: key)
  case Nil
  then show ?case by (simp add: printable_def)
next
  case (Cons s F)
  show ?case
  proof (cases "own_property R (str ''hasOwnProperty'') = None")
    case False
    then show ?thesis by (simp add: result_hasOwnProperty_def)
  next
    case h: True
    show ?thesis
    proof (cases "own_property R s")
      case None
      with Cons.prems h have "\<not> printable R F" by (simp add: printable_Cons)
      from Cons.IH [OF this] None h show ?thesis
        by (simp add: result_hasOwnProperty_def)
    next
      case (Some v)
      show ?thesis
      proof (cases "v \<noteq> JNull \<and> has_text v")
        case True
        with Cons.prems h Some have "\<not> printable R F" by (simp add: printable_Cons)
        from Cons.IH [OF this] Some h True show ?thesis
          by (simp add: result_hasOwnProperty_def toString_def)
      next
        case False
        with Some h show ?thesis
          by (auto simp: result_hasOwnProperty_def toString_def)
      qed
    qed
  qed
qed

lemma buildKey_printable:
  "printable R F \<Longrightarrow> buildKey nts R F = Inr (JSON_stringify (key_object nts R F))"
  by (simp add: buildKey_def buildKey_fields_printable key_object_def)

lemma buildKey_throws: "\<not> printable R F \<Longrightarrow> buildKey nts R F = Inl TypeError"
  by (simp add: buildKey_def buildKey_fields_throws)

lemma parseKey_fields_present:
  "map_of key (str ''hasOwnProperty'') = None \<Longrightarrow> map_of key (str ''__proto__'') = None \<Longrightarrow>
   set F - {str ''__proto__''} \<subseteq> fst ` set key \<Longrightarrow> parseKey_fields F key = Inr key"
proof (induction F)
  case Nil
  show ?case by simp
next
  case (Cons s F)
  from Cons have ih: "parseKey_fields F key = Inr key" by auto
  show ?case
  proof (cases "s = str ''__proto__''")
    case True
    with Cons.prems ih show ?thesis
      by (simp add: hasOwnProperty_def set_property_def)
  next
    case False
    with Cons.prems have "s \<in> fst ` set key" by auto
    then have "map_of key s \<noteq> None" by (simp add: map_of_eq_None_iff)
    with Cons.prems ih show ?thesis
      by (auto simp: hasOwnProperty_def)
  qed
qed

lemma parseKey_key_object:
  assumes "str ''hasOwnProperty'' \<notin> set F"
  shows "parseKey (JSON_stringify (key_object nts R F)) F = Inr (key_object nts R F)"
proof -
  have "parseKey_fields F (key_object nts R F) = Inr (key_object nts R F)"
    using assms by (intro parseKey_fields_present) (simp_all add: map_of_key_object keys_key_object)
  then show ?thesis
    by (simp add: parseKey_def JSON_parse_stringify_enumerated enumerated_key_object)
qed

lemma parseKey_key_object_throws:
  assumes "str ''hasOwnProperty'' \<in> set F"
  shows "parseKey (JSON_stringify (key_object nts R F)) F = Inl TypeError"
proof -
  have ne: "str ''hasOwnProperty'' \<noteq> str ''__proto__''" by (simp add: str_def)
  from assms ne have own: "map_of (key_object nts R F) (str ''hasOwnProperty'') \<noteq> None"
    by (simp add: map_of_key_object)
  from assms obtain s F' where "F = s # F'" by (cases F) auto
  with own have "parseKey_fields F (key_object nts R F) = Inl TypeError"
    by (simp add: hasOwnProperty_def)
  then show ?thesis
    by (simp add: parseKey_def JSON_parse_stringify_enumerated enumerated_key_object)
qed







section \<open>Properties of the trace builder\<close>

lemma Object_groupBy_total:
  "\<forall>x \<in> set xs. callback x = Inr (g x) \<Longrightarrow>
   Object_groupBy xs callback groups = Inr (foldl (\<lambda>gs x. add_to_group (g x) x gs) groups xs)"
  by (induction xs arbitrary: groups) simp_all

lemma add_to_group_tabulated:
  "distinct K \<Longrightarrow>
   add_to_group k x (map (\<lambda>k'. (k', h k')) K)
     = (if k \<in> set K then map (\<lambda>k'. (k', if k' = k then h k' @ [x] else h k')) K
        else map (\<lambda>k'. (k', h k')) K @ [(k, [x])])"
  by (induction K) auto

lemma groups_foldl:
  "foldl (\<lambda>gs x. add_to_group (g x) x gs) [] xs
     = map (\<lambda>k. (k, filter (\<lambda>x. g x = k) xs)) (rev (remdups (rev (map g xs))))"
proof (induction xs rule: rev_induct)
  case Nil
  show ?case by simp
next
  case (snoc x xs)
  let ?K = "rev (remdups (rev (map g xs)))"
  have dK: "distinct ?K" by simp
  have sK: "set ?K = g ` set xs" by simp
  have step: "foldl (\<lambda>gs x. add_to_group (g x) x gs) [] (xs @ [x])
                = add_to_group (g x) x (map (\<lambda>k. (k, filter (\<lambda>x. g x = k) xs)) ?K)"
    by (simp add: snoc.IH)
  show ?case
  proof (cases "g x \<in> set ?K")
    case True
    then have K': "rev (remdups (rev (map g (xs @ [x])))) = ?K" by simp
    have "add_to_group (g x) x (map (\<lambda>k. (k, filter (\<lambda>x. g x = k) xs)) ?K)
            = map (\<lambda>k'. (k', if k' = g x then filter (\<lambda>x. g x = k') xs @ [x]
                              else filter (\<lambda>x. g x = k') xs)) ?K"
      using True by (simp only: add_to_group_tabulated [OF dK] if_True)
    also have "\<dots> = map (\<lambda>k. (k, filter (\<lambda>y. g y = k) (xs @ [x]))) ?K"
      by (rule map_cong) auto
    finally show ?thesis by (simp only: step K')
  next
    case False
    then have K': "rev (remdups (rev (map g (xs @ [x])))) = ?K @ [g x]" by simp
    from False have "g x \<notin> g ` set xs" by simp
    then have "\<forall>y \<in> set xs. g y \<noteq> g x" by (metis image_eqI)
    then have fresh: "filter (\<lambda>y. g y = g x) xs = []"
      by (simp add: filter_empty_conv)
    have "add_to_group (g x) x (map (\<lambda>k. (k, filter (\<lambda>x. g x = k) xs)) ?K)
            = map (\<lambda>k. (k, filter (\<lambda>x. g x = k) xs)) ?K @ [(g x, [x])]"
      using False by (simp only: add_to_group_tabulated [OF dK] if_False)
    also have "\<dots> = map (\<lambda>k. (k, filter (\<lambda>y. g y = k) (xs @ [x]))) (?K @ [g x])"
      using False fresh by auto
    finally show ?thesis by (simp only: step K')
  qed
qed

lemma map_throwing_map:
  "\<forall>x \<in> set xs. f x = Inr (g x) \<Longrightarrow> map_throwing f xs = Inr (map g xs)"
  by (induction xs) simp_all

lemma Object_groupBy_throws:
  "\<exists>x \<in> set xs. \<exists>e. callback x = Inl e \<Longrightarrow> \<exists>e. Object_groupBy xs callback groups = Inl e"
proof (induction xs arbitrary: groups)
  case Nil
  then show ?case by simp
next
  case (Cons x xs)
  show ?case
  proof (cases "callback x")
    case (Inl e)
    then show ?thesis by simp
  next
    case (Inr k)
    with Cons.prems have "\<exists>x \<in> set xs. \<exists>e. callback x = Inl e" by auto
    from Cons.IH [OF this] Inr show ?thesis by simp
  qed
qed

lemma map_throwing_throws:
  "\<exists>x \<in> set xs. \<exists>e. f x = Inl e \<Longrightarrow> \<exists>e. map_throwing f xs = Inl e"
proof (induction xs)
  case Nil
  then show ?case by simp
next
  case (Cons x xs)
  show ?case
  proof (cases "f x")
    case (Inl e)
    then show ?thesis by simp
  next
    case (Inr y)
    with Cons.prems have "\<exists>x \<in> set xs. \<exists>e. f x = Inl e" by auto
    from Cons.IH [OF this] Inr show ?thesis by auto
  qed
qed

lemma getNanoseconds_cases:
  "(\<exists>r. getNanoseconds v u = Inr r) \<or> (\<exists>e. getNanoseconds v u = Inl e)"
  by (cases "getNanoseconds v u") auto

text \<open>
  The builder throws unless every result of the history is printable on the schema and has a
  recognised unit and, when there is a result at all, the schema has no field named
  \<open>hasOwnProperty\<close>.
\<close>

lemma separateAllTraces_throws:
  assumes bad: "\<exists>e \<in> set commits. \<exists>b \<in> set (benches e).
                  \<not> printable b schema \<or> str ''hasOwnProperty'' \<in> set schema
                  \<or> (\<forall>r. getNanoseconds (value' b) (unit' b) \<noteq> Inr r)"
  shows "\<exists>e. separateAllTraces nts commits schema = Inl e"
proof -
  let ?data = "observations commits"
  let ?keyOf = "\<lambda>d. JSON_stringify (key_object nts (obs_bench d) schema)"
  let ?cb = "\<lambda>benchEntry. buildKey nts (obs_bench benchEntry) schema"
  let ?ns = "\<lambda>d. getNanoseconds (value' (obs_bench d)) (unit' (obs_bench d))"
  let ?mk = "\<lambda>(keyString, dataset').
               case parseKey keyString schema of
                 Inl e \<Rightarrow> Inl e
               | Inr metadata' \<Rightarrow>
                   (case map_throwing ?ns dataset' of
                      Inl e \<Rightarrow> Inl e
                    | Inr dataNs' \<Rightarrow>
                        Inr \<lparr>metadata = set_property (str ''unit'') (str ''ns/iter'') metadata',
                             trace_x = map obs_date dataset',
                             dataNs = dataNs',
                             dataset = dataset',
                             showlegend = True,
                             hoverinfo = str ''text'',
                             trace_y = None, trace_name = None, trace_text = None\<rparr>)"
  from bad obtain d where d: "d \<in> set ?data"
    and d_bad: "\<not> printable (obs_bench d) schema \<or> str ''hasOwnProperty'' \<in> set schema
                \<or> (\<forall>r. ?ns d \<noteq> Inr r)"
    by (fastforce simp: observations_def)
  show ?thesis
  proof (cases "\<forall>d \<in> set ?data. printable (obs_bench d) schema")
    case False
    then obtain d' where "d' \<in> set ?data" "?cb d' = Inl TypeError"
      by (auto simp: buildKey_throws)
    then have "\<exists>x \<in> set ?data. \<exists>e. ?cb x = Inl e" by blast
    from Object_groupBy_throws [OF this, of "[]"] show ?thesis
      by (auto simp: separateAllTraces_def Let_def observations_def)
  next
    case True
    then have key: "\<forall>x \<in> set ?data. ?cb x = Inr (?keyOf x)" by (simp add: buildKey_printable)
    let ?G = "map (\<lambda>k. (k, filter (\<lambda>d. ?keyOf d = k) ?data)) (rev (remdups (rev (map ?keyOf ?data))))"
    have grouped: "Object_groupBy ?data ?cb [] = Inr ?G"
      using Object_groupBy_total [OF key, of "[]"] by (simp add: groups_foldl)
    let ?g = "(?keyOf d, filter (\<lambda>d'. ?keyOf d' = ?keyOf d) ?data)"
    from d have g: "?g \<in> set ?G" by auto
    have "\<exists>e. ?mk ?g = Inl e"
    proof (cases "str ''hasOwnProperty'' \<in> set schema")
      case True
      then show ?thesis by (simp add: parseKey_key_object_throws)
    next
      case False
      with True d d_bad have "\<forall>r. ?ns d \<noteq> Inr r" by blast
      with getNanoseconds_cases [of "value' (obs_bench d)" "unit' (obs_bench d)"]
      obtain e where e: "?ns d = Inl e" by blast
      from d e have "\<exists>x \<in> set (filter (\<lambda>d'. ?keyOf d' = ?keyOf d) ?data). \<exists>e. ?ns x = Inl e"
        by auto
      from map_throwing_throws [OF this] show ?thesis
        by (auto split: sum.splits)
    qed
    with g have "\<exists>x \<in> set ?G. \<exists>e. ?mk x = Inl e" by blast
    from map_throwing_throws [OF this] grouped show ?thesis
      by (auto simp: separateAllTraces_def Let_def observations_def)
  qed
qed

text \<open>
  On every other history the builder returns these traces: one for each distinct key, in
  the order in which the keys first occur, with the results of that key in input order.
\<close>

lemma separateAllTraces_traces:
  assumes ok: "\<forall>e \<in> set commits. \<forall>b \<in> set (benches e).
                 printable b schema \<and> str ''hasOwnProperty'' \<notin> set schema
               \<and> (\<exists>r. getNanoseconds (value' b) (unit' b) = Inr r)"
  shows "separateAllTraces nts commits schema
     = Inr (map (\<lambda>k.
              \<lparr>metadata = set_property (str ''unit'') (str ''ns/iter'')
                  (key_object nts
                     (obs_bench (hd (filter (\<lambda>d. buildKey nts (obs_bench d) schema = Inr k)
                                       (observations commits))))
                     schema),
               trace_x = map obs_date
                  (filter (\<lambda>d. buildKey nts (obs_bench d) schema = Inr k) (observations commits)),
               dataNs = map (\<lambda>d. projr (getNanoseconds (value' (obs_bench d)) (unit' (obs_bench d))))
                  (filter (\<lambda>d. buildKey nts (obs_bench d) schema = Inr k) (observations commits)),
               dataset = filter (\<lambda>d. buildKey nts (obs_bench d) schema = Inr k) (observations commits),
               showlegend = True,
               hoverinfo = str ''text'',
               trace_y = None, trace_name = None, trace_text = None\<rparr>)
            (rev (remdups (rev (map (\<lambda>d. JSON_stringify (key_object nts (obs_bench d) schema))
                                  (observations commits))))))"
    (is "_ = Inr (map ?trace ?K)")
proof -
  let ?data = "observations commits"
  let ?keyOf = "\<lambda>d. JSON_stringify (key_object nts (obs_bench d) schema)"
  let ?ns = "\<lambda>d. getNanoseconds (value' (obs_bench d)) (unit' (obs_bench d))"
  let ?G = "map (\<lambda>k. (k, filter (\<lambda>d. ?keyOf d = k) ?data)) ?K"
  let ?mk = "\<lambda>(keyString, dataset').
               case parseKey keyString schema of
                 Inl e \<Rightarrow> Inl e
               | Inr metadata' \<Rightarrow>
                   (case map_throwing ?ns dataset' of
                      Inl e \<Rightarrow> Inl e
                    | Inr dataNs' \<Rightarrow>
                        Inr \<lparr>metadata = set_property (str ''unit'') (str ''ns/iter'') metadata',
                             trace_x = map obs_date dataset',
                             dataNs = dataNs',
                             dataset = dataset',
                             showlegend = True,
                             hoverinfo = str ''text'',
                             trace_y = None, trace_name = None, trace_text = None\<rparr>)"
  have data_ok: "printable (obs_bench d) schema \<and> str ''hasOwnProperty'' \<notin> set schema
                 \<and> (\<exists>r. ?ns d = Inr r)"
    if "d \<in> set ?data" for d
    using that ok by (auto simp: observations_def)
  have key: "buildKey nts (obs_bench d) schema = Inr (?keyOf d)" if "d \<in> set ?data" for d
    using data_ok [OF that] by (simp add: buildKey_printable)
  have filt: "filter (\<lambda>d. ?keyOf d = k) ?data
                = filter (\<lambda>d. buildKey nts (obs_bench d) schema = Inr k) ?data" for k
    by (rule filter_cong) (simp_all add: key)
  have grouped: "Object_groupBy ?data (\<lambda>benchEntry. buildKey nts (obs_bench benchEntry) schema) []
                   = Inr ?G"
    using Object_groupBy_total [of ?data _ ?keyOf "[]"] key
    by (simp add: groups_foldl)
  have mk: "?mk g = Inr (?trace (fst g))" if g: "g \<in> set ?G" for g
  proof -
    let ?ds = "filter (\<lambda>d. ?keyOf d = fst g) ?data"
    from g have k: "fst g \<in> set (map ?keyOf ?data)" and gk: "g = (fst g, ?ds)"
      by auto
    from k have ne: "?ds \<noteq> []" by (auto simp: filter_empty_conv)
    then have "hd ?ds \<in> set ?ds" by (rule hd_in_set)
    then have hd_data: "hd ?ds \<in> set ?data" and hd_key: "?keyOf (hd ?ds) = fst g" by auto
    from data_ok [OF hd_data] have "str ''hasOwnProperty'' \<notin> set schema" by simp
    from parseKey_key_object [OF this, of nts "obs_bench (hd ?ds)"] hd_key
    have p: "parseKey (fst g) schema = Inr (key_object nts (obs_bench (hd ?ds)) schema)"
      by simp
    have "\<forall>d \<in> set ?ds. ?ns d = Inr (projr (?ns d))"
    proof
      fix d assume "d \<in> set ?ds"
      then have "d \<in> set ?data" by simp
      from data_ok [OF this] show "?ns d = Inr (projr (?ns d))" by auto
    qed
    then have ns: "map_throwing ?ns ?ds = Inr (map (\<lambda>d. projr (?ns d)) ?ds)"
      by (rule map_throwing_map)
    have "?mk (fst g, ?ds) = Inr (?trace (fst g))"
      by (simp add: p [unfolded filt] ns [unfolded filt] filt)
    with gk show ?thesis by simp
  qed
  then have "\<forall>g \<in> set ?G. ?mk g = Inr ((\<lambda>g. ?trace (fst g)) g)" by blast
  then have "map_throwing ?mk ?G = Inr (map (\<lambda>g. ?trace (fst g)) ?G)"
    by (rule map_throwing_map)
  also have "map (\<lambda>g. ?trace (fst g)) ?G = map ?trace ?K"
    by (simp add: comp_def)
  finally have tr: "map_throwing ?mk ?G = Inr (map ?trace ?K)" .
  show ?thesis
    unfolding separateAllTraces_def Let_def
    using grouped tr by (simp add: observations_def)
qed

text \<open>
  In a trace that the builder returns, the metadata holds, for every schema field other than
  \<open>unit\<close> and \<open>__proto__\<close>, the text that each observation of the trace has in that field.
\<close>

lemma separateAllTraces_metadata:
  assumes sep: "separateAllTraces nts commits schema = Inr traces"
    and t: "t \<in> set traces" and d: "d \<in> set (dataset t)"
    and f: "f \<in> set schema" "f \<noteq> str ''unit''" "f \<noteq> str ''__proto__''"
  shows "map_of (metadata t) f = Some (field_text nts (obs_bench d) f)"
proof -
  let ?data = "observations commits"
  have ok: "\<forall>e \<in> set commits. \<forall>b \<in> set (benches e).
              printable b schema \<and> str ''hasOwnProperty'' \<notin> set schema
            \<and> (\<exists>r. getNanoseconds (value' b) (unit' b) = Inr r)"
  proof (rule ccontr)
    assume "\<not> ?thesis"
    then have "\<exists>e \<in> set commits. \<exists>b \<in> set (benches e).
                 \<not> printable b schema \<or> str ''hasOwnProperty'' \<in> set schema
                 \<or> (\<forall>r. getNanoseconds (value' b) (unit' b) \<noteq> Inr r)" by blast
    from separateAllTraces_throws [OF this, of nts] sep show False by simp
  qed
  have printable: "printable (obs_bench d') schema" if "d' \<in> set ?data" for d'
    using that ok by (auto simp: observations_def)
  from separateAllTraces_traces [OF ok, of nts] sep t obtain k where
    meta: "metadata t = set_property (str ''unit'') (str ''ns/iter'')
             (key_object nts
                (obs_bench (hd (filter (\<lambda>d. buildKey nts (obs_bench d) schema = Inr k) ?data)))
                schema)"
    and ds: "dataset t = filter (\<lambda>d. buildKey nts (obs_bench d) schema = Inr k) ?data"
    by auto
  let ?ds = "filter (\<lambda>d. buildKey nts (obs_bench d) schema = Inr k) ?data"
  from d ds have d_data: "d \<in> set ?data" and d_key: "buildKey nts (obs_bench d) schema = Inr k"
    by auto
  from d ds have "?ds \<noteq> []" by (auto simp: filter_empty_conv)
  then have "hd ?ds \<in> set ?ds" by (rule hd_in_set)
  then have h_data: "hd ?ds \<in> set ?data"
    and h_key: "buildKey nts (obs_bench (hd ?ds)) schema = Inr k" by auto
  from d_key h_key have "buildKey nts (obs_bench (hd ?ds)) schema = buildKey nts (obs_bench d) schema"
    by simp
  then have "key_object nts (obs_bench (hd ?ds)) schema = key_object nts (obs_bench d) schema"
    by (simp add: buildKey_printable [OF printable [OF h_data]]
          buildKey_printable [OF printable [OF d_data]] JSON_stringify_key_object_inj)
  with meta have "metadata t
      = set_property (str ''unit'') (str ''ns/iter'') (key_object nts (obs_bench d) schema)"
    by simp
  with f show ?thesis
    by (simp add: map_of_set_property map_of_key_object)
qed




text \<open>
  C5 at a failing input. The schema is \<open>name, platform, os\<close>, the charts are grouped by
  \<open>os\<close>, and the one result has no \<open>platform\<close>. The trace built for it carries the sentinel
  \<open>-\<close> for the platform (not \<open>undefined\<close>), so the test \<open>value !== undefined\<close> keeps it and
  the legend name is \<open>sign -\<close>, with the sentinel in it.
\<close>

theorem getLegendName_keeps_sentinel:
  "separateAllTraces integral_toString
     [\<lparr>commit = \<lparr>id' = str ''a1'', message = str ''first'', timestamp = str ''t1'', url = str ''u1''\<rparr>,
       date = 1000, bigger_is_better = False,
       benches = [\<lparr>value' = 5, unit' = str ''ms'', range' = None,
                   props = [(str ''name'', JStr (str ''sign'')), (str ''os'', JStr (str ''linux''))]\<rparr>]\<rparr>]
     [str ''name'', str ''platform'', str ''os'']
   = Inr [\<lparr>metadata = [(str ''name'', str ''sign''), (str ''platform'', str ''-''),
                        (str ''os'', str ''linux''), (str ''unit'', str ''ns/iter'')],
           trace_x = [1000], dataNs = [5000000],
           dataset =
             [\<lparr>obs_commit = \<lparr>id' = str ''a1'', message = str ''first'', timestamp = str ''t1'', url = str ''u1''\<rparr>,
               obs_date = 1000,
               obs_bench = \<lparr>value' = 5, unit' = str ''ms'', range' = None,
                      props = [(str ''name'', JStr (str ''sign'')), (str ''os'', JStr (str ''linux''))]\<rparr>\<rparr>],
           showlegend = True, hoverinfo = str ''text'', trace_y = None, trace_name = None,
           trace_text = None\<rparr>]
   \<and> getLegendName
       \<lparr>metadata = [(str ''name'', str ''sign''), (str ''platform'', str ''-''),
                    (str ''os'', str ''linux''), (str ''unit'', str ''ns/iter'')],
        trace_x = [1000], dataNs = [5000000],
        dataset =
          [\<lparr>obs_commit = \<lparr>id' = str ''a1'', message = str ''first'', timestamp = str ''t1'', url = str ''u1''\<rparr>,
            obs_date = 1000,
            obs_bench = \<lparr>value' = 5, unit' = str ''ms'', range' = None,
                   props = [(str ''name'', JStr (str ''sign'')), (str ''os'', JStr (str ''linux''))]\<rparr>\<rparr>],
        showlegend = True, hoverinfo = str ''text'', trace_y = None, trace_name = None,
        trace_text = None\<rparr>
       [str ''os''] [str ''name'', str ''platform'', str ''os'']
     = str ''sign -''"
  by code_simp

section \<open>Properties of the legend and the tooltip\<close>

lemma sublist_middle: "t = ps @ xs @ ss \<Longrightarrow> sublist xs t"
  by (auto simp: sublist_def)

lemma tooltip_contains:
  fixes nts name observation
  defines "t \<equiv> getObservationTooltipText nts name observation"
  shows "sublist name t"
    and "sublist (nts (value' (obs_bench observation))) t"
    and "sublist (unit' (obs_bench observation)) t"
    and "range' (obs_bench observation) = Some r \<Longrightarrow> sublist r t"
    and "sublist (id' (obs_commit observation)) t"
    and "sublist (message (obs_commit observation)) t"
    and "sublist (url (obs_commit observation)) t"
proof -
  let ?b = "obs_bench observation" and ?c = "obs_commit observation"
  let ?rangeText = "case range' ?b of None \<Rightarrow> [] | Some r \<Rightarrow> r"
  have t: "t = str ''<b>'' @ name @ str ''</b><br>value: '' @ nts (value' ?b) @ str '' '' @ unit' ?b
                 @ str '' '' @ ?rangeText @ str ''<br>commit id: '' @ id' ?c
                 @ str ''<br>commit name: '' @ message ?c @ str ''<br>commit url: '' @ url ?c"
    by (simp add: t_def getObservationTooltipText_def Let_def)
  show "sublist name t"
    by (rule sublist_middle [of _ "str ''<b>''"]) (rule t)
  show "sublist (nts (value' ?b)) t"
    by (rule sublist_middle [of _ "str ''<b>'' @ name @ str ''</b><br>value: ''"]) (simp add: t)
  show "sublist (unit' ?b) t"
    by (rule sublist_middle
          [of _ "str ''<b>'' @ name @ str ''</b><br>value: '' @ nts (value' ?b) @ str '' ''"])
       (simp add: t)
  show "sublist r t" if "range' ?b = Some r"
    by (rule sublist_middle
          [of _ "str ''<b>'' @ name @ str ''</b><br>value: '' @ nts (value' ?b) @ str '' ''
                 @ unit' ?b @ str '' ''"])
       (simp add: t that)
  show "sublist (id' ?c) t"
    by (rule sublist_middle
          [of _ "str ''<b>'' @ name @ str ''</b><br>value: '' @ nts (value' ?b) @ str '' ''
                 @ unit' ?b @ str '' '' @ ?rangeText @ str ''<br>commit id: ''"])
       (simp add: t)
  show "sublist (message ?c) t"
    by (rule sublist_middle
          [of _ "str ''<b>'' @ name @ str ''</b><br>value: '' @ nts (value' ?b) @ str '' ''
                 @ unit' ?b @ str '' '' @ ?rangeText @ str ''<br>commit id: '' @ id' ?c
                 @ str ''<br>commit name: ''"])
       (simp add: t)
  show "sublist (url ?c) t"
    by (rule sublist_middle
          [of _ "str ''<b>'' @ name @ str ''</b><br>value: '' @ nts (value' ?b) @ str '' ''
                 @ unit' ?b @ str '' '' @ ?rangeText @ str ''<br>commit id: '' @ id' ?c
                 @ str ''<br>commit name: '' @ message ?c @ str ''<br>commit url: ''" _ "[]"])
       (simp add: t)
qed

lemma sublist_join: "x \<in> set xs \<Longrightarrow> sublist x (join sep xs)"
proof (induction sep xs rule: join.induct)
  case (1 sep)
  then show ?case by simp
next
  case (2 sep s)
  then show ?case by simp
next
  case (3 sep s t ts)
  show ?case
  proof (cases "x = s")
    case True
    have "sublist s (s @ (sep @ join sep (t # ts)))" by (rule sublist_append_rightI)
    with True show ?thesis by simp
  next
    case False
    with 3 have "sublist x (join sep (t # ts))" by simp
    then have "sublist x ((s @ sep) @ join sep (t # ts))"
      by (rule sublist_order.order_trans) (rule sublist_append_leftI)
    then show ?thesis by simp
  qed
qed

lemma kept_entry:
  "x \<in> set xs \<Longrightarrow> P (x, g x) \<Longrightarrow> h (x, g x) \<in> set (map h (filter P (map (\<lambda>k. (k, g k)) xs)))"
  by (induction xs) auto

text \<open>
  The legend name contains the value that the metadata holds for a schema field outside the
  group-by list.
\<close>

lemma getLegendName_contains:
  assumes "f \<in> set schema" and "f \<notin> set groupBy" and "f \<noteq> str ''unit''"
    and "map_of (metadata trace) f = Some n"
  shows "sublist n (getLegendName trace groupBy schema)"
proof -
  let ?P = "\<lambda>(key, value). key \<notin> set groupBy \<and> key \<noteq> str ''unit'' \<and> value \<noteq> Undefined"
  let ?g = "get_property (metadata trace)"
  let ?h = "\<lambda>(_, value). property_text value"
  from assms(4) have own: "?g f = Own n"
    by (simp add: get_property_def)
  with assms(2,3) have "?P (f, ?g f)" by simp
  with assms(1) have "?h (f, ?g f) \<in> set (map ?h (filter ?P (map (\<lambda>k. (k, ?g k)) schema)))"
    by (rule kept_entry)
  with own have "n \<in> set (map ?h (filter ?P (map (\<lambda>k. (k, ?g k)) schema)))" by simp
  then have "sublist n (join (str '' '') (map ?h (filter ?P (map (\<lambda>k. (k, ?g k)) schema))))"
    by (rule sublist_join)
  then show ?thesis by (simp only: getLegendName_def Let_def)
qed

text \<open>
  C7, as the code has it. For every trace, the name set on it is its legend name, and there
  is one tooltip text per observation, in order; the text of each observation contains the
  legend name of the trace, the printed value, the unit, the range when the result has one, the
  commit id, the commit message and the commit url. The heading of the tooltip is the legend
  name. When \<open>name\<close> is a schema field outside the group-by list, the legend name, and with it
  every tooltip, contains the name that the metadata of the trace holds; in a trace that
  \<open>separateAllTraces\<close> has built from a history, this is the benchmark name of each
  observation of the trace (the text of its field \<open>name\<close>).
\<close>

theorem addLegendNameAndTooltip_contents:
  "\<exists>texts.
     trace_name (addLegendNameAndTooltip nts trace groupBy schema)
       = Some (getLegendName trace groupBy schema)
   \<and> trace_text (addLegendNameAndTooltip nts trace groupBy schema) = Some texts
   \<and> length texts = length (dataset trace)
   \<and> (\<forall>i < length (dataset trace).
          sublist (getLegendName trace groupBy schema) (texts ! i)
        \<and> sublist (nts (value' (obs_bench (dataset trace ! i)))) (texts ! i)
        \<and> sublist (unit' (obs_bench (dataset trace ! i))) (texts ! i)
        \<and> (\<forall>r. range' (obs_bench (dataset trace ! i)) = Some r \<longrightarrow> sublist r (texts ! i))
        \<and> sublist (id' (obs_commit (dataset trace ! i))) (texts ! i)
        \<and> sublist (message (obs_commit (dataset trace ! i))) (texts ! i)
        \<and> sublist (url (obs_commit (dataset trace ! i))) (texts ! i)
        \<and> (str ''name'' \<in> set schema \<and> str ''name'' \<notin> set groupBy \<longrightarrow>
              (\<forall>n. map_of (metadata trace) (str ''name'') = Some n \<longrightarrow> sublist n (texts ! i))
            \<and> (\<forall>commits traces.
                  separateAllTraces nts commits schema = Inr traces \<and> trace \<in> set traces \<longrightarrow>
                  sublist (field_text nts (obs_bench (dataset trace ! i)) (str ''name''))
                    (texts ! i))))"
proof -
  let ?legend = "getLegendName trace groupBy schema"
  let ?texts = "map (\<lambda>observation. getObservationTooltipText nts ?legend observation) (dataset trace)"
  have ne: "str ''name'' \<noteq> str ''unit''" "str ''name'' \<noteq> str ''__proto__''"
    by (simp_all add: str_def)
  have in_legend: "sublist n ?legend"
    if "str ''name'' \<in> set schema" "str ''name'' \<notin> set groupBy"
      "map_of (metadata trace) (str ''name'') = Some n" for n
    using that(1,2) ne(1) that(3) by (rule getLegendName_contains)
  have in_text: "sublist n (?texts ! i)"
    if "sublist n ?legend" "i < length (dataset trace)" for n i
  proof -
    have "sublist ?legend (getObservationTooltipText nts ?legend (dataset trace ! i))"
      by (rule tooltip_contains)
    with that(1) have "sublist n (getObservationTooltipText nts ?legend (dataset trace ! i))"
      by (rule sublist_order.order_trans)
    with that(2) show ?thesis by simp
  qed
  have built: "map_of (metadata trace) (str ''name'')
                 = Some (field_text nts (obs_bench (dataset trace ! i)) (str ''name''))"
    if "str ''name'' \<in> set schema" "i < length (dataset trace)"
      "separateAllTraces nts commits schema = Inr traces" "trace \<in> set traces"
    for i commits traces
  proof -
    from that(2) have "dataset trace ! i \<in> set (dataset trace)" by simp
    from separateAllTraces_metadata [OF that(3) that(4) this that(1) ne] show ?thesis .
  qed
  have name_text: "trace_name (addLegendNameAndTooltip nts trace groupBy schema) = Some ?legend"
    and texts: "trace_text (addLegendNameAndTooltip nts trace groupBy schema) = Some ?texts"
    by (simp_all add: addLegendNameAndTooltip_def Let_def)
  have each: "sublist ?legend (?texts ! i)
        \<and> sublist (nts (value' (obs_bench (dataset trace ! i)))) (?texts ! i)
        \<and> sublist (unit' (obs_bench (dataset trace ! i))) (?texts ! i)
        \<and> (\<forall>r. range' (obs_bench (dataset trace ! i)) = Some r \<longrightarrow> sublist r (?texts ! i))
        \<and> sublist (id' (obs_commit (dataset trace ! i))) (?texts ! i)
        \<and> sublist (message (obs_commit (dataset trace ! i))) (?texts ! i)
        \<and> sublist (url (obs_commit (dataset trace ! i))) (?texts ! i)"
    if "i < length (dataset trace)" for i
    using that by (simp add: tooltip_contains)
  have names: "(\<forall>n. map_of (metadata trace) (str ''name'') = Some n \<longrightarrow> sublist n (?texts ! i))
            \<and> (\<forall>commits traces.
                  separateAllTraces nts commits schema = Inr traces \<and> trace \<in> set traces \<longrightarrow>
                  sublist (field_text nts (obs_bench (dataset trace ! i)) (str ''name''))
                    (?texts ! i))"
    if i: "i < length (dataset trace)"
      and s: "str ''name'' \<in> set schema" and g: "str ''name'' \<notin> set groupBy" for i
  proof (intro conjI allI impI)
    fix n assume "map_of (metadata trace) (str ''name'') = Some n"
    from in_legend [OF s g this] i show "sublist n (?texts ! i)" by (rule in_text)
  next
    fix commits traces
    assume "separateAllTraces nts commits schema = Inr traces \<and> trace \<in> set traces"
    then have "map_of (metadata trace) (str ''name'')
                 = Some (field_text nts (obs_bench (dataset trace ! i)) (str ''name''))"
      using built [OF s i] by blast
    from in_legend [OF s g this] i
    show "sublist (field_text nts (obs_bench (dataset trace ! i)) (str ''name'')) (?texts ! i)"
      by (rule in_text)
  qed
  from name_text texts each names show ?thesis
    by (intro exI [of _ ?texts]) simp
qed

text \<open>
  A history of one entry for the benchmark \<open>sign\<close>, with the schema \<open>name, os\<close> and the
  charts grouped by \<open>os\<close>: the builder returns one trace, its legend name is the benchmark
  name, and its tooltip shows the name with the value, the unit and the range.
\<close>

theorem addLegendNameAndTooltip_contents_witness:
  "separateAllTraces integral_toString
     [\<lparr>commit = \<lparr>id' = str ''a1'', message = str ''first'', timestamp = str ''t1'', url = str ''u1''\<rparr>,
       date = 1000, bigger_is_better = False,
       benches = [\<lparr>value' = 5, unit' = str ''ms'', range' = Some (str ''+-2''),
                   props = [(str ''name'', JStr (str ''sign'')), (str ''os'', JStr (str ''linux''))]\<rparr>]\<rparr>]
     [str ''name'', str ''os'']
   = Inr [\<lparr>metadata = [(str ''name'', str ''sign''), (str ''os'', str ''linux''),
                        (str ''unit'', str ''ns/iter'')],
           trace_x = [1000], dataNs = [5000000],
           dataset =
             [\<lparr>obs_commit = \<lparr>id' = str ''a1'', message = str ''first'', timestamp = str ''t1'',
                             url = str ''u1''\<rparr>,
               obs_date = 1000,
               obs_bench = \<lparr>value' = 5, unit' = str ''ms'', range' = Some (str ''+-2''),
                            props = [(str ''name'', JStr (str ''sign'')),
                                     (str ''os'', JStr (str ''linux''))]\<rparr>\<rparr>],
           showlegend = True, hoverinfo = str ''text'', trace_y = None, trace_name = None,
           trace_text = None\<rparr>]
   \<and> trace_text
     (addLegendNameAndTooltip integral_toString
        \<lparr>metadata = [(str ''name'', str ''sign''), (str ''os'', str ''linux''),
                     (str ''unit'', str ''ns/iter'')],
         trace_x = [1000], dataNs = [5000000],
         dataset =
           [\<lparr>obs_commit = \<lparr>id' = str ''a1'', message = str ''first'', timestamp = str ''t1'',
                           url = str ''u1''\<rparr>,
             obs_date = 1000,
             obs_bench = \<lparr>value' = 5, unit' = str ''ms'', range' = Some (str ''+-2''),
                          props = [(str ''name'', JStr (str ''sign'')),
                                   (str ''os'', JStr (str ''linux''))]\<rparr>\<rparr>],
         showlegend = True, hoverinfo = str ''text'', trace_y = None, trace_name = None,
         trace_text = None\<rparr>
        [str ''os''] [str ''name'', str ''os''])
   = Some [str ''<b>sign</b><br>value: 5 ms +-2<br>commit id: a1<br>commit name: first<br>commit url: u1'']
   \<and> sublist (str ''sign'')
       (str ''<b>sign</b><br>value: 5 ms +-2<br>commit id: a1<br>commit name: first<br>commit url: u1'')
   \<and> sublist (str ''+-2'')
       (str ''<b>sign</b><br>value: 5 ms +-2<br>commit id: a1<br>commit name: first<br>commit url: u1'')"
proof -
  let ?bench = "\<lparr>value' = 5, unit' = str ''ms'', range' = Some (str ''+-2''),
                 props = [(str ''name'', JStr (str ''sign'')), (str ''os'', JStr (str ''linux''))]\<rparr>"
  let ?commit = "\<lparr>id' = str ''a1'', message = str ''first'', timestamp = str ''t1'',
                  url = str ''u1''\<rparr>"
  let ?history = "[\<lparr>commit = ?commit, date = 1000, bigger_is_better = False, benches = [?bench]\<rparr>]"
  let ?trace =
    "\<lparr>metadata = [(str ''name'', str ''sign''), (str ''os'', str ''linux''),
                  (str ''unit'', str ''ns/iter'')],
      trace_x = [1000], dataNs = [5000000],
      dataset = [\<lparr>obs_commit = ?commit, obs_date = 1000, obs_bench = ?bench\<rparr>],
      showlegend = True, hoverinfo = str ''text'', trace_y = None, trace_name = None,
      trace_text = None\<rparr>"
  let ?text = "str ''<b>sign</b><br>value: 5 ms +-2<br>commit id: a1<br>commit name: first<br>commit url: u1''"
  have sep: "separateAllTraces integral_toString ?history [str ''name'', str ''os''] = Inr [?trace]"
    by code_simp
  have ev: "trace_text (addLegendNameAndTooltip integral_toString ?trace [str ''os'']
                         [str ''name'', str ''os'']) = Some [?text]"
    by code_simp
  have name: "field_text integral_toString ?bench (str ''name'') = str ''sign''"
    by code_simp
  have schema: "str ''name'' \<in> set [str ''name'', str ''os'']"
    and groupBy: "str ''name'' \<notin> set [str ''os'']"
    by (simp_all add: str_def)
  from addLegendNameAndTooltip_contents
         [of integral_toString ?trace "[str ''os'']" "[str ''name'', str ''os'']"]
  obtain texts where
    texts: "trace_text (addLegendNameAndTooltip integral_toString ?trace [str ''os'']
                          [str ''name'', str ''os'']) = Some texts"
    and each: "\<forall>i < length (dataset ?trace).
          (\<forall>r. range' (obs_bench (dataset ?trace ! i)) = Some r \<longrightarrow> sublist r (texts ! i))
        \<and> (str ''name'' \<in> set [str ''name'', str ''os''] \<and> str ''name'' \<notin> set [str ''os''] \<longrightarrow>
              (\<forall>commits traces.
                  separateAllTraces integral_toString commits [str ''name'', str ''os''] = Inr traces
                    \<and> ?trace \<in> set traces \<longrightarrow>
                  sublist (field_text integral_toString (obs_bench (dataset ?trace ! i)) (str ''name''))
                    (texts ! i)))"
    by blast
  from texts ev have t: "texts = [?text]" by simp
  from each have 0:
    "(\<forall>r. range' (obs_bench (dataset ?trace ! 0)) = Some r \<longrightarrow> sublist r (texts ! 0))
     \<and> (str ''name'' \<in> set [str ''name'', str ''os''] \<and> str ''name'' \<notin> set [str ''os''] \<longrightarrow>
           (\<forall>commits traces.
               separateAllTraces integral_toString commits [str ''name'', str ''os''] = Inr traces
                 \<and> ?trace \<in> set traces \<longrightarrow>
               sublist (field_text integral_toString (obs_bench (dataset ?trace ! 0)) (str ''name''))
                 (texts ! 0)))"
    by simp
  from 0 have range: "sublist (str ''+-2'') ?text" by (simp add: t)
  from 0 schema groupBy have built:
    "\<forall>commits traces.
        separateAllTraces integral_toString commits [str ''name'', str ''os''] = Inr traces
          \<and> ?trace \<in> set traces \<longrightarrow>
        sublist (field_text integral_toString (obs_bench (dataset ?trace ! 0)) (str ''name''))
          (texts ! 0)"
    by blast
  from built [rule_format, of ?history "[?trace]"] sep
  have "sublist (field_text integral_toString ?bench (str ''name'')) ?text"
    by (simp add: t)
  with name have "sublist (str ''sign'') ?text" by simp
  with sep ev range show ?thesis by simp
qed

text \<open>
  C7 as stated fails: with the schema \<open>name, os\<close> and the charts grouped by \<open>name\<close>, the trace
  that the builder returns for the benchmark \<open>sign\<close> has the legend name \<open>linux\<close>, and the
  tooltip of its observation does not contain the benchmark name.
\<close>

theorem tooltip_without_benchmark_name_counterexample:
  "separateAllTraces integral_toString
     [\<lparr>commit = \<lparr>id' = str ''a1'', message = str ''first'', timestamp = str ''t1'', url = str ''u1''\<rparr>,
       date = 1000, bigger_is_better = False,
       benches = [\<lparr>value' = 5, unit' = str ''ms'', range' = None,
                   props = [(str ''name'', JStr (str ''sign'')), (str ''os'', JStr (str ''linux''))]\<rparr>]\<rparr>]
     [str ''name'', str ''os'']
   = Inr [\<lparr>metadata = [(str ''name'', str ''sign''), (str ''os'', str ''linux''),
                        (str ''unit'', str ''ns/iter'')],
           trace_x = [1000], dataNs = [5000000],
           dataset =
             [\<lparr>obs_commit = \<lparr>id' = str ''a1'', message = str ''first'', timestamp = str ''t1'',
                             url = str ''u1''\<rparr>,
               obs_date = 1000,
               obs_bench = \<lparr>value' = 5, unit' = str ''ms'', range' = None,
                            props = [(str ''name'', JStr (str ''sign'')),
                                     (str ''os'', JStr (str ''linux''))]\<rparr>\<rparr>],
           showlegend = True, hoverinfo = str ''text'', trace_y = None, trace_name = None,
           trace_text = None\<rparr>]
   \<and> trace_text
     (addLegendNameAndTooltip integral_toString
        \<lparr>metadata = [(str ''name'', str ''sign''), (str ''os'', str ''linux''),
                     (str ''unit'', str ''ns/iter'')],
         trace_x = [1000], dataNs = [5000000],
         dataset =
           [\<lparr>obs_commit = \<lparr>id' = str ''a1'', message = str ''first'', timestamp = str ''t1'',
                           url = str ''u1''\<rparr>,
             obs_date = 1000,
             obs_bench = \<lparr>value' = 5, unit' = str ''ms'', range' = None,
                          props = [(str ''name'', JStr (str ''sign'')),
                                   (str ''os'', JStr (str ''linux''))]\<rparr>\<rparr>],
         showlegend = True, hoverinfo = str ''text'', trace_y = None, trace_name = None,
         trace_text = None\<rparr>
        [str ''name''] [str ''name'', str ''os''])
   = Some [str ''<b>linux</b><br>value: 5 ms <br>commit id: a1<br>commit name: first<br>commit url: u1'']
   \<and> \<not> sublist (str ''sign'')
       (str ''<b>linux</b><br>value: 5 ms <br>commit id: a1<br>commit name: first<br>commit url: u1'')"
  by code_simp

section \<open>Properties of the schema retrieval\<close>

text \<open>
  When the \<open>schema\<close> table of the data document is absent, is neither an object nor an
  array, or has no own property for the requested suite (and does not hide the method
  \<open>hasOwnProperty\<close>), \<open>retrieveSchema\<close> returns the default field list
  \<open>name, platform, os, keySize, api, category\<close> and writes one diagnostic to the console; in
  the same cases of the \<open>groupBy\<close> table, \<open>retrieveGroupBy\<close> returns the default \<open>os\<close> and
  writes one diagnostic.
\<close>

lemma retrieve_absent_entry:
  "\<not> hides_hasOwnProperty schema \<Longrightarrow> suite_entry schema benchSet = None \<Longrightarrow>
   retrieveSchema schema benchSet
     = Inr (JArr [JStr (str ''name''), JStr (str ''platform''), JStr (str ''os''),
                  JStr (str ''keySize''), JStr (str ''api''), JStr (str ''category'')],
            [str ''No or invalid schema provided: defaulting to [name,platform,os,keySize,api,category]''])"
  "\<not> hides_hasOwnProperty groupBy \<Longrightarrow> suite_entry groupBy benchSet = None \<Longrightarrow>
   retrieveGroupBy groupBy benchSet
     = Inr (JArr [JStr (str ''os'')], [str ''No or invalid groupBy provided: defaulting to [os]''])"
proof -
  have s: "str ''No or invalid schema provided: defaulting to ['' @
           join (str '','') [str ''name'', str ''platform'', str ''os'', str ''keySize'', str ''api'',
                            str ''category''] @ str '']''
           = str ''No or invalid schema provided: defaulting to [name,platform,os,keySize,api,category]''"
    by (simp add: str_def)
  have g: "str ''No or invalid groupBy provided: defaulting to ['' @ join (str '','') [str ''os'']
             @ str '']''
           = str ''No or invalid groupBy provided: defaulting to [os]''"
    by (simp add: str_def)
  show "retrieveSchema schema benchSet
        = Inr (JArr [JStr (str ''name''), JStr (str ''platform''), JStr (str ''os''),
                     JStr (str ''keySize''), JStr (str ''api''), JStr (str ''category'')],
               [str ''No or invalid schema provided: defaulting to [name,platform,os,keySize,api,category]''])"
    if "\<not> hides_hasOwnProperty schema" "suite_entry schema benchSet = None"
    using that unfolding retrieveSchema_def Let_def s by simp
  show "retrieveGroupBy groupBy benchSet
        = Inr (JArr [JStr (str ''os'')], [str ''No or invalid groupBy provided: defaulting to [os]''])"
    if "\<not> hides_hasOwnProperty groupBy" "suite_entry groupBy benchSet = None"
    using that unfolding retrieveGroupBy_def Let_def g by simp
qed

text \<open>
  C9 at failing inputs. The tables have an entry for the requested suite, and the entry is
  not a field list: the schema entry is the number \<open>42\<close>, the group-by entry is \<open>null\<close>.
  Both functions return the entry as it is stored, with no default and no diagnostic. And for
  a table that has a suite named \<open>hasOwnProperty\<close>, the request for another suite throws
  instead of giving the default.
\<close>

theorem retrieve_returns_invalid_entry:
  "retrieveSchema (TObj [(str ''suite'', JNum 42)]) (str ''suite'') = Inr (JNum 42, [])
   \<and> \<not> field_list (JNum 42)
   \<and> retrieveGroupBy (TObj [(str ''suite'', JNull)]) (str ''suite'') = Inr (JNull, [])
   \<and> \<not> field_list JNull
   \<and> retrieveSchema (TObj [(str ''hasOwnProperty'', JArr [JStr (str ''name'')])]) (str ''suite'')
     = Inl TypeError"
  by (simp add: retrieveSchema_def retrieveGroupBy_def str_def)

section \<open>The filter engine on two filters\<close>

text \<open>
  C1 at a failing input. A chart with the attributes \<open>os = linux\<close> and \<open>keySize = 512\<close>, visible
  and without the \<open>hidden-by\<close> attribute. Unchecking \<open>linux\<close> stores the counter \<open>1\<close>. The
  attribute is read back as the string \<open>1\<close>, so unchecking \<open>512\<close> appends to it instead of
  adding: the counter becomes \<open>11\<close>. Re-checking \<open>linux\<close> gives \<open>10\<close> and re-checking \<open>512\<close>
  gives \<open>9\<close>: every filter is checked again and the chart is still hidden.
\<close>

theorem setChartHiddenStatus_two_filters:
  "setChartHiddenStatus True (str ''os'') (str ''linux'')
     [\<lparr>attributes = [(str ''os'', str ''linux''), (str ''keySize'', str ''512'')], display = None\<rparr>]
   = [\<lparr>attributes = [(str ''os'', str ''linux''), (str ''keySize'', str ''512''),
                     (str ''hidden-by'', str ''1'')],
       display = Some (str ''none'')\<rparr>]
   \<and> setChartHiddenStatus True (str ''keySize'') (str ''512'')
     [\<lparr>attributes = [(str ''os'', str ''linux''), (str ''keySize'', str ''512''),
                     (str ''hidden-by'', str ''1'')],
       display = Some (str ''none'')\<rparr>]
   = [\<lparr>attributes = [(str ''os'', str ''linux''), (str ''keySize'', str ''512''),
                     (str ''hidden-by'', str ''11'')],
       display = Some (str ''none'')\<rparr>]
   \<and> setChartHiddenStatus False (str ''os'') (str ''linux'')
     [\<lparr>attributes = [(str ''os'', str ''linux''), (str ''keySize'', str ''512''),
                     (str ''hidden-by'', str ''11'')],
       display = Some (str ''none'')\<rparr>]
   = [\<lparr>attributes = [(str ''os'', str ''linux''), (str ''keySize'', str ''512''),
                     (str ''hidden-by'', str ''10'')],
       display = Some (str ''none'')\<rparr>]
   \<and> setChartHiddenStatus False (str ''keySize'') (str ''512'')
     [\<lparr>attributes = [(str ''os'', str ''linux''), (str ''keySize'', str ''512''),
                     (str ''hidden-by'', str ''10'')],
       display = Some (str ''none'')\<rparr>]
   = [\<lparr>attributes = [(str ''os'', str ''linux''), (str ''keySize'', str ''512''),
                     (str ''hidden-by'', str ''9'')],
       display = Some (str ''none'')\<rparr>]"
  by code_simp

section \<open>Properties of the history update\<close>

lemma find_rev_Some:
  "find P (rev xs) = Some e \<Longrightarrow>
   \<exists>pre post. xs = pre @ e # post \<and> P e \<and> (\<forall>x \<in> set post. \<not> P x)"
proof (induction xs rule: rev_induct)
  case Nil
  then show ?case by simp
next
  case (snoc x xs)
  show ?case
  proof (cases "P x")
    case True
    with snoc.prems have "e = x" by simp
    with True show ?thesis
      by (intro exI [of _ xs] exI [of _ "[]"]) simp
  next
    case False
    with snoc.prems have "find P (rev xs) = Some e" by simp
    from snoc.IH [OF this] obtain pre post where
      "xs = pre @ e # post" "P e" "\<forall>x \<in> set post. \<not> P x" by blast
    with False have "xs @ [x] = pre @ e # (post @ [x]) \<and> P e \<and> (\<forall>y \<in> set (post @ [x]). \<not> P y)"
      by simp
    then show ?thesis by blast
  qed
qed

lemma find_rev_None: "find P (rev xs) = None \<longleftrightarrow> (\<forall>x \<in> set xs. \<not> P x)"
  by (auto simp: find_None_iff)

lemma addBenchmarkToDataJson_new_suite:
  assumes "map_of (entries data) benchName = None" and "benchName \<notin> set Object_prototype"
  shows "\<exists>data'. addBenchmarkToDataJson groupBy schema benchName bench data maxItems now
                   = Inr (None, data')
           \<and> map_of (entries data') = (map_of (entries data))(benchName \<mapsto> [bench])"
proof -
  from assms(2) have "benchName \<noteq> str ''__proto__''"
    by (auto simp: Object_prototype_def)
  with assms show ?thesis
    by (simp add: addBenchmarkToDataJson_def Let_def get_property_def map_of_set_property)
qed

lemma addBenchmarkToDataJson_old_suite:
  assumes "map_of (entries data) benchName = Some suites"
  shows "\<exists>data'. addBenchmarkToDataJson groupBy schema benchName bench data maxItems now
             = Inr (find (\<lambda>e. id' (commit e) \<noteq> id' (commit bench)) (rev suites), data')
           \<and> map_of (entries data')
               = (map_of (entries data))(benchName \<mapsto>
                   (case maxItems of
                      None \<Rightarrow> suites @ [bench]
                    | Some m \<Rightarrow>
                        if int (length (suites @ [bench])) > m
                        then drop (nat (int (length (suites @ [bench])) - m)) (suites @ [bench])
                        else suites @ [bench]))"
  using assms
  by (simp add: addBenchmarkToDataJson_def Let_def get_property_def map_of_set_property)

text \<open>
  For a suite name that the table of entries inherits and does not have, the update throws.
\<close>

lemma addBenchmarkToDataJson_inherited:
  assumes "map_of (entries data) benchName = None" and "benchName \<in> set Object_prototype"
  shows "addBenchmarkToDataJson groupBy schema benchName bench data maxItems now = Inl TypeError"
  using assms by (simp add: addBenchmarkToDataJson_def Let_def get_property_def)

lemma truncate_lastN:
  "(if int (length xs) > m then drop (nat (int (length xs) - m)) xs else xs) = lastN m xs"
proof (cases "int (length xs) > m")
  case True
  then have "nat (int (length xs) - m) = length xs - nat m \<or> (m < 0 \<and> length xs - nat m = length xs)"
    by linarith
  with True show ?thesis by (auto simp: lastN_def)
next
  case False
  then have "length xs - nat m = 0" by linarith
  with False show ?thesis by (simp add: lastN_def)
qed

text \<open>
  C10, as the code has it. For every data document, new entry and \<open>maxItems\<close>, and every
  suite name that is a suite of the document or is not the name of a property of
  \<open>Object.prototype\<close>: a suite that did not exist is created with the new entry alone; an
  existing suite becomes its old entries followed by the new entry, cut to the last
  \<open>maxItems\<close> entries when \<open>maxItems\<close> is not \<open>null\<close>; the other suites are unchanged; and
  the entry returned is the last old entry whose commit id differs from the new entry's,
  \<open>null\<close> when there is none. For the other suite names the update throws
  (\<open>addBenchmarkToDataJson_inherited\<close>).
\<close>

theorem addBenchmarkToDataJson_history:
  assumes "benchName \<in> set Object_prototype \<longrightarrow> map_of (entries data) benchName \<noteq> None"
  shows "\<exists>prev data' old.
     addBenchmarkToDataJson groupBy schema benchName bench data maxItems now = Inr (prev, data')
   \<and> old = (case map_of (entries data) benchName of None \<Rightarrow> [] | Some suites \<Rightarrow> suites)
   \<and> map_of (entries data') benchName
       = Some (if map_of (entries data) benchName = None then [bench]
               else (case maxItems of None \<Rightarrow> old @ [bench] | Some m \<Rightarrow> lastN m (old @ [bench])))
   \<and> (\<forall>other. other \<noteq> benchName \<longrightarrow> map_of (entries data') other = map_of (entries data) other)
   \<and> (prev = None \<longleftrightarrow> (\<forall>e \<in> set old. id' (commit e) = id' (commit bench)))
   \<and> (\<forall>e. prev = Some e \<longrightarrow>
         (\<exists>pre post. old = pre @ e # post \<and> id' (commit e) \<noteq> id' (commit bench)
            \<and> (\<forall>e' \<in> set post. id' (commit e') = id' (commit bench))))"
proof (cases "map_of (entries data) benchName")
  case None
  with assms have "benchName \<notin> set Object_prototype" by blast
  from addBenchmarkToDataJson_new_suite [OF None this, of groupBy schema bench maxItems now]
  obtain data' where
    r: "addBenchmarkToDataJson groupBy schema benchName bench data maxItems now = Inr (None, data')"
    and e: "map_of (entries data') = (map_of (entries data))(benchName \<mapsto> [bench])" by blast
  with None show ?thesis by simp
next
  case (Some suites)
  let ?P = "\<lambda>e. id' (commit e) \<noteq> id' (commit bench)"
  from addBenchmarkToDataJson_old_suite [OF Some, of groupBy schema bench maxItems now]
  obtain data' where
    r: "addBenchmarkToDataJson groupBy schema benchName bench data maxItems now
          = Inr (find ?P (rev suites), data')"
    and e: "map_of (entries data')
               = (map_of (entries data))(benchName \<mapsto>
                   (case maxItems of
                      None \<Rightarrow> suites @ [bench]
                    | Some m \<Rightarrow>
                        if int (length (suites @ [bench])) > m
                        then drop (nat (int (length (suites @ [bench])) - m)) (suites @ [bench])
                        else suites @ [bench]))" by blast
  have t: "(case maxItems of
              None \<Rightarrow> suites @ [bench]
            | Some m \<Rightarrow>
                if int (length (suites @ [bench])) > m
                then drop (nat (int (length (suites @ [bench])) - m)) (suites @ [bench])
                else suites @ [bench])
           = (case maxItems of None \<Rightarrow> suites @ [bench] | Some m \<Rightarrow> lastN m (suites @ [bench]))"
    by (cases maxItems) (simp_all only: option.case truncate_lastN)
  have n: "find ?P (rev suites) = None \<longleftrightarrow> (\<forall>e \<in> set suites. id' (commit e) = id' (commit bench))"
    by (simp add: find_rev_None)
  have s: "\<forall>e. find ?P (rev suites) = Some e \<longrightarrow>
               (\<exists>pre post. suites = pre @ e # post \<and> id' (commit e) \<noteq> id' (commit bench)
                  \<and> (\<forall>e' \<in> set post. id' (commit e') = id' (commit bench)))"
    using find_rev_Some [of ?P suites] by auto
  from r e t n s Some show ?thesis by simp
qed

text \<open>
  A suite of three entries, a new entry for the commit of the last one, and \<open>maxItems = 2\<close>:
  the entry returned is the second one, and the suite keeps the third entry and the new one.
\<close>

theorem addBenchmarkToDataJson_history_witness:
  "\<exists>data'.
     addBenchmarkToDataJson [str ''os''] [str ''name''] (str ''suite'')
       \<lparr>commit = \<lparr>id' = str ''c2'', message = str ''again'', timestamp = str ''t3'', url = str ''u2''\<rparr>,
        date = 3000, bigger_is_better = False, benches = []\<rparr>
       \<lparr>lastUpdate = 0, repoUrl = str ''r'',
        entries =
          [(str ''suite'',
            [\<lparr>commit = \<lparr>id' = str ''c0'', message = str ''zero'', timestamp = str ''t0'', url = str ''u0''\<rparr>,
              date = 500, bigger_is_better = False, benches = []\<rparr>,
             \<lparr>commit = \<lparr>id' = str ''c1'', message = str ''one'', timestamp = str ''t1'', url = str ''u1''\<rparr>,
              date = 1000, bigger_is_better = False, benches = []\<rparr>,
             \<lparr>commit = \<lparr>id' = str ''c2'', message = str ''two'', timestamp = str ''t2'', url = str ''u2''\<rparr>,
              date = 2000, bigger_is_better = False, benches = []\<rparr>])],
        data_groupBy = None, data_schema = None\<rparr>
       (Some 2) 4000
     = Inr (Some \<lparr>commit = \<lparr>id' = str ''c1'', message = str ''one'', timestamp = str ''t1'', url = str ''u1''\<rparr>,
                  date = 1000, bigger_is_better = False, benches = []\<rparr>,
            data')
   \<and> map_of (entries data') (str ''suite'')
     = Some [\<lparr>commit = \<lparr>id' = str ''c2'', message = str ''two'', timestamp = str ''t2'', url = str ''u2''\<rparr>,
              date = 2000, bigger_is_better = False, benches = []\<rparr>,
             \<lparr>commit = \<lparr>id' = str ''c2'', message = str ''again'', timestamp = str ''t3'', url = str ''u2''\<rparr>,
              date = 3000, bigger_is_better = False, benches = []\<rparr>]"
proof -
  let ?E0 = "\<lparr>commit = \<lparr>id' = str ''c0'', message = str ''zero'', timestamp = str ''t0'', url = str ''u0''\<rparr>,
              date = 500, bigger_is_better = False, benches = []\<rparr>"
  let ?E1 = "\<lparr>commit = \<lparr>id' = str ''c1'', message = str ''one'', timestamp = str ''t1'', url = str ''u1''\<rparr>,
              date = 1000, bigger_is_better = False, benches = []\<rparr>"
  let ?E2 = "\<lparr>commit = \<lparr>id' = str ''c2'', message = str ''two'', timestamp = str ''t2'', url = str ''u2''\<rparr>,
              date = 2000, bigger_is_better = False, benches = []\<rparr>"
  let ?B = "\<lparr>commit = \<lparr>id' = str ''c2'', message = str ''again'', timestamp = str ''t3'', url = str ''u2''\<rparr>,
             date = 3000, bigger_is_better = False, benches = []\<rparr>"
  let ?data = "\<lparr>lastUpdate = 0, repoUrl = str ''r'', entries = [(str ''suite'', [?E0, ?E1, ?E2])],
                data_groupBy = None, data_schema = None\<rparr>"
  have hyp: "str ''suite'' \<in> set Object_prototype \<longrightarrow> map_of (entries ?data) (str ''suite'') \<noteq> None"
    by simp
  from addBenchmarkToDataJson_history
         [OF hyp, of "[str ''os'']" "[str ''name'']" ?B "Some 2" 4000]
  obtain prev data' where
    run: "addBenchmarkToDataJson [str ''os''] [str ''name''] (str ''suite'') ?B ?data (Some 2) 4000
            = Inr (prev, data')"
    and suite: "map_of (entries data') (str ''suite'') = Some (lastN 2 ([?E0, ?E1, ?E2] @ [?B]))"
    and none: "prev = None \<longleftrightarrow> (\<forall>e \<in> set [?E0, ?E1, ?E2]. id' (commit e) = id' (commit ?B))"
    and some: "\<forall>e. prev = Some e \<longrightarrow>
                 (\<exists>pre post. [?E0, ?E1, ?E2] = pre @ e # post \<and> id' (commit e) \<noteq> id' (commit ?B)
                    \<and> (\<forall>e' \<in> set post. id' (commit e') = id' (commit ?B)))"
    by auto
  from none obtain e where e: "prev = Some e" by (auto simp: str_def)
  with some obtain pre post where
    split: "[?E0, ?E1, ?E2] = pre @ e # post" and differs: "id' (commit e) \<noteq> id' (commit ?B)"
    and later: "\<forall>e' \<in> set post. id' (commit e') = id' (commit ?B)" by blast
  from split differs later have "e = ?E1"
    by (auto simp: append_eq_Cons_conv Cons_eq_append_conv str_def)
  with e run suite show ?thesis by (simp add: lastN_def)
qed

text \<open>
  C10 as stated fails for \<open>maxItems = 0\<close> on a document without the suite: the suite is
  created with the new entry and is not cut, while the last \<open>0\<close> entries are none. It also
  fails for the suite name \<open>constructor\<close> on a document without suites: the update throws.
\<close>

theorem addBenchmarkToDataJson_zero_maxItems_counterexample:
  "addBenchmarkToDataJson [str ''os''] [str ''name''] (str ''suite'')
     \<lparr>commit = \<lparr>id' = str ''c1'', message = str ''one'', timestamp = str ''t1'', url = str ''u1''\<rparr>,
      date = 1000, bigger_is_better = False, benches = []\<rparr>
     \<lparr>lastUpdate = 0, repoUrl = str ''r'', entries = [], data_groupBy = None, data_schema = None\<rparr>
     (Some 0) 4000
   = Inr (None,
       \<lparr>lastUpdate = 4000, repoUrl = str ''r'',
        entries =
          [(str ''suite'',
            [\<lparr>commit = \<lparr>id' = str ''c1'', message = str ''one'', timestamp = str ''t1'', url = str ''u1''\<rparr>,
              date = 1000, bigger_is_better = False, benches = []\<rparr>])],
        data_groupBy = Some [(str ''suite'', [str ''os''])],
        data_schema = Some [(str ''suite'', [str ''name''])]\<rparr>)
   \<and> lastN 0
       ([] @ [\<lparr>commit = \<lparr>id' = str ''c1'', message = str ''one'', timestamp = str ''t1'', url = str ''u1''\<rparr>,
               date = 1000, bigger_is_better = False, benches = []\<rparr>])
     = []
   \<and> addBenchmarkToDataJson [str ''os''] [str ''name''] (str ''constructor'')
     \<lparr>commit = \<lparr>id' = str ''c1'', message = str ''one'', timestamp = str ''t1'', url = str ''u1''\<rparr>,
      date = 1000, bigger_is_better = False, benches = []\<rparr>
     \<lparr>lastUpdate = 0, repoUrl = str ''r'', entries = [], data_groupBy = None, data_schema = None\<rparr>
     None 4000
   = Inl TypeError"
  by code_simp

end
